theory Spec2Isabelle
  imports Complex_Main "HOL-Library.Log_Nat"
begin

section \<open>Geo-data join and classification engine of the election map\<close>

text \<open>
  The development embeds the styling code of the map component: the join of a precinct
  feature with its election record (\<open>getPrecinctResults\<close>), the winner
  (\<open>getWinningCandidate\<close>), the four precinct styling functions, the census-tract
  styling with the Gen-Z share, and the dispatcher \<open>styleFunction\<close>.

  Conventions of the embedding.
  \<^item> Vote, registration and population counts are integers (\<open>int\<close>) below \<open>2 ^ 53\<close> in
    magnitude, which a JavaScript number holds exactly. Every other number is the
    rational value of an IEEE double, and every arithmetic operation rounds its exact
    result to the nearest double (\<open>fl\<close>, ties to even). A decimal literal that is not
    itself a double, such as \<open>0.3\<close>, denotes \<open>fl\<close> of it. Overflow and subnormal numbers
    do not occur at these magnitudes and are not modelled.
  \<^item> \<open>undefined\<close> and \<open>null\<close> values are \<open>None\<close>; a thrown \<open>TypeError\<close> is the left
    summand of a result.
  \<^item> A JavaScript object used as a dictionary is an association list in the order in
    which \<open>Object.entries\<close> enumerates it. A lookup in the object literal of base colours
    also finds the members that every object inherits from \<open>Object.prototype\<close>.
  \<^item> The loaded datasets are parameters: \<open>precincts\<close> is the array
    \<open>results.precincts\<close>, and \<open>getVoterCounts\<close> is the lookup declared in
    \<open>voter-counts.d.ts\<close>, whose body is not part of the sources; it is applied to the
    value read from the feature, which may be undefined.
  \<^item> Console output is write-only diagnostics and is left out, except for the sampled
    log of the earlier component, whose random draw is an explicit argument.
\<close>

subsection \<open>Data\<close>

record PrecinctResult =
  item_id :: string
  votes :: int
  results :: "(string \<times> int) list"

record VoterCounts =
  district :: int
  county :: string
  democrats :: int
  republicans :: int
  conservatives :: int
  working_families :: int
  other :: int
  blank :: int
  total_reg :: int

text \<open>Field \<open>total_reg\<close> is the source's \<open>total\<close>.\<close>

text \<open>
  A feature carries a bag of properties, which GeoJSON allows to be null; the precinct
  number \<open>ElectDist\<close> may be missing from the bag. Both records are extensible, so a
  feature and its properties may carry anything else.
\<close>

record props =
  ElectDist :: "int option"

record 'p feature =
  properties :: "'p option"

record censusTract =
  totalPopulation :: "int option"
  ageGroups :: "(string \<times> int option) list option"

text \<open>
  In \<open>ageGroups\<close> an entry carries \<open>Some c\<close> when its value is an object whose
  \<open>total\<close> is the number \<open>c\<close>, and \<open>None\<close> when the value is not such an object or its
  \<open>total\<close> is null or undefined.
\<close>

datatype error = TypeError

text \<open>
  The value of a colour lookup: a string, or the member of \<open>Object.prototype\<close> found
  under the given name (a function, or the prototype itself for \<open>__proto__\<close>).
\<close>

datatype jsValue = Str string | Inherited string

record style =
  fillColor :: jsValue
  weight :: rat
  opacity :: rat
  color :: string
  dashArray :: "string option"
  fillOpacity :: rat

datatype ViewMode =
  ElectionResults | VoterRegistration | Turnout | AgeDemographics | ZohranSupport

subsection \<open>Double-precision arithmetic\<close>

text \<open>
  For a positive rational \<open>x\<close>, \<open>binade x\<close> is the exponent \<open>e\<close> with
  \<open>2 ^ e \<le> x < 2 ^ (e + 1)\<close>. A double has a significand of 53 bits, so \<open>fl\<close> scales its
  argument into the range from \<open>2 ^ 52\<close> to \<open>2 ^ 53\<close>, rounds to the nearest integer with
  ties to the even one, and scales back.
\<close>

definition binade :: "rat \<Rightarrow> int" where
  "binade x =
     (if 1 \<le> x then int (floorlog 2 (nat \<lfloor>x\<rfloor>)) - 1
      else - int (floorlog 2 (nat (\<lceil>1 / x\<rceil> - 1))))"

definition roundHalfEven :: "rat \<Rightarrow> int" where
  "roundHalfEven m =
     (let f = \<lfloor>m\<rfloor>; d = m - of_int f
      in if d < 1 / 2 then f else if 1 / 2 < d then f + 1 else if even f then f else f + 1)"

definition fl :: "rat \<Rightarrow> rat" where
  "fl x =
     (if x = 0 then 0
      else (let e = binade \<bar>x\<bar> - 52
            in sgn x * of_int (roundHalfEven (\<bar>x\<bar> / 2 powi e)) * 2 powi e))"

definition fadd :: "rat \<Rightarrow> rat \<Rightarrow> rat" where
  "fadd x y = fl (x + y)"

definition fsub :: "rat \<Rightarrow> rat \<Rightarrow> rat" where
  "fsub x y = fl (x - y)"

definition fmul :: "rat \<Rightarrow> rat \<Rightarrow> rat" where
  "fmul x y = fl (x * y)"

definition fdiv :: "rat \<Rightarrow> rat \<Rightarrow> rat" where
  "fdiv x y = fl (x / y)"

text \<open>The source's \<open>(x / y) * 100\<close>.\<close>

definition percentOf :: "rat \<Rightarrow> rat \<Rightarrow> rat" where
  "percentOf x y = fmul (fdiv x y) 100"

subsection \<open>Numbers as strings\<close>

definition digitChar :: "nat \<Rightarrow> char" where
  "digitChar d = ''0123456789abcdef'' ! d"

fun decimal :: "nat \<Rightarrow> string" where
  "decimal n = (if n < 10 then [digitChar n] else decimal (n div 10) @ [digitChar (n mod 10)])"

declare decimal.simps [simp del]

fun hexadecimal :: "nat \<Rightarrow> string" where
  "hexadecimal n =
     (if n < 16 then [digitChar n] else hexadecimal (n div 16) @ [digitChar (n mod 16)])"

declare hexadecimal.simps [simp del]

text \<open>\<open>Number.prototype.toString()\<close> on an integer precinct number.\<close>

definition numberToString :: "int \<Rightarrow> string" where
  "numberToString n = (if n < 0 then CHR ''-'' # decimal (nat (- n)) else decimal (nat n))"

text \<open>\<open>n.toString(16).padStart(2, "0")\<close>.\<close>

definition hex2 :: "nat \<Rightarrow> string" where
  "hex2 n = (let s = hexadecimal n in replicate (2 - length s) CHR ''0'' @ s)"

definition hexDigit :: "char \<Rightarrow> nat option" where
  "hexDigit c =
     (if c \<in> set ''0123456789'' then Some (of_char c - 48)
      else if c \<in> set ''abcdef'' then Some (of_char c - 87)
      else if c \<in> set ''ABCDEF'' then Some (of_char c - 55)
      else None)"

text \<open>
  \<open>parseInt(s, 16)\<close> on a two-character substring of a colour. The callers pass two
  hexadecimal digits; for any other string the model answers \<open>None\<close> (not a number).
\<close>

definition parseHexByte :: "string \<Rightarrow> nat option" where
  "parseHexByte s =
     (case s of
        [a, b] \<Rightarrow>
          (case (hexDigit a, hexDigit b) of
             (Some x, Some y) \<Rightarrow> Some (16 * x + y)
           | _ \<Rightarrow> None)
      | _ \<Rightarrow> None)"

text \<open>\<open>color.replace("#", "")\<close>: the first \<open>#\<close> is removed.\<close>

fun removeHash :: "string \<Rightarrow> string" where
  "removeHash [] = []"
| "removeHash (c # cs) = (if c = CHR ''#'' then cs else c # removeHash cs)"

definition substr :: "string \<Rightarrow> nat \<Rightarrow> nat \<Rightarrow> string" where
  "substr s i n = take n (drop i s)"

subsection \<open>Shading\<close>

definition channelString :: "(nat \<Rightarrow> int) \<Rightarrow> string \<Rightarrow> string" where
  "channelString f s =
     (case parseHexByte s of
        None \<Rightarrow> ''NaN''
      | Some v \<Rightarrow> hex2 (nat (f v)))"

text \<open>
  \<open>Math.max(0, Math.floor(r * (1 - amount)))\<close> and
  \<open>Math.min(255, Math.floor(r + (255 - r) * amount))\<close> on each channel; the product,
  the difference and the sum are rounded to doubles before the floor is taken.
\<close>

definition darkenColor :: "string \<Rightarrow> rat \<Rightarrow> string" where
  "darkenColor c amount =
     (let hex = removeHash c;
          newC = (\<lambda>v. max 0 \<lfloor>fmul (of_nat v) (fsub 1 amount)\<rfloor>)
      in CHR ''#'' # channelString newC (substr hex 0 2)
           @ channelString newC (substr hex 2 2)
           @ channelString newC (substr hex 4 2))"

definition lightenColor :: "string \<Rightarrow> rat \<Rightarrow> string" where
  "lightenColor c amount =
     (let hex = removeHash c;
          newC = (\<lambda>v. min 255 \<lfloor>fadd (of_nat v) (fmul (fsub 255 (of_nat v)) amount)\<rfloor>)
      in CHR ''#'' # channelString newC (substr hex 0 2)
           @ channelString newC (substr hex 2 2)
           @ channelString newC (substr hex 4 2))"

text \<open>
  Both functions start with \<open>color.replace\<close>, which exists on strings only: called with
  an inherited member they throw.
\<close>

definition darken :: "jsValue \<Rightarrow> rat \<Rightarrow> error + jsValue" where
  "darken v amount =
     (case v of Str c \<Rightarrow> Inr (Str (darkenColor c amount)) | Inherited k \<Rightarrow> Inl TypeError)"

definition lighten :: "jsValue \<Rightarrow> rat \<Rightarrow> error + jsValue" where
  "lighten v amount =
     (case v of Str c \<Rightarrow> Inr (Str (lightenColor c amount)) | Inherited k \<Rightarrow> Inl TypeError)"

subsection \<open>Join and winner\<close>

definition getPrecinctResults :: "PrecinctResult list \<Rightarrow> int \<Rightarrow> PrecinctResult option" where
  "getPrecinctResults precincts electDist =
     find (\<lambda>p. item_id p = numberToString electDist) precincts"

text \<open>
  \<open>feature.properties.ElectDist\<close>: reading a property of null properties throws; a
  missing \<open>ElectDist\<close> reads as undefined.
\<close>

definition readElectDist :: "('b props_scheme, 'a) feature_scheme \<Rightarrow> error + int option" where
  "readElectDist f =
     (case properties f of None \<Rightarrow> Inl TypeError | Some p \<Rightarrow> Inr (ElectDist p))"

text \<open>
  The call \<open>getPrecinctResults(electDist)\<close> with the value read from the feature. With
  an undefined value, \<open>electDist.toString()\<close> throws in the callback of \<open>find\<close> at the
  first stored record; over an empty array the callback never runs.
\<close>

definition callGetPrecinctResults ::
  "PrecinctResult list \<Rightarrow> int option \<Rightarrow> error + PrecinctResult option" where
  "callGetPrecinctResults precincts electDist =
     (case electDist of
        Some n \<Rightarrow> Inr (getPrecinctResults precincts n)
      | None \<Rightarrow> (if precincts = [] then Inr None else Inl TypeError))"

text \<open>
  The candidates are the entries without the write-in key, sorted by descending votes;
  the sort of the array is stable. The first key is returned unless it is falsy, that is
  the empty string (\<open>candidates[0]?.[0] || null\<close>).
\<close>

definition candidates :: "PrecinctResult \<Rightarrow> (string \<times> int) list" where
  "candidates r =
     sort_key (\<lambda>e. - snd e) (filter (\<lambda>e. fst e \<noteq> ''total_writeins'') (results r))"

definition getWinningCandidate :: "PrecinctResult option \<Rightarrow> string option" where
  "getWinningCandidate precinctResults =
     (case precinctResults of
        None \<Rightarrow> None
      | Some r \<Rightarrow>
          (case candidates r of
             [] \<Rightarrow> None
           | e # _ \<Rightarrow> (if fst e = [] then None else Some (fst e))))"

subsection \<open>Styling precincts\<close>

definition candidateBaseColors :: "(string \<times> string) list" where
  "candidateBaseColors =
     [(''cuomo-a'', ''#1f77b4''), (''lander-b'', ''#ff7f0e''), (''mamdani-z'', ''#2ca02c''),
      (''ramos-j'', ''#d62728''), (''stringer-s'', ''#9467bd''), (''blake-m'', ''#8c564b''),
      (''myrie-z'', ''#e377c2''), (''tilson-w'', ''#7f7f7f''), (''adams-a'', ''#bcbd22'')]"

text \<open>The names that every object inherits from \<open>Object.prototype\<close>; all are truthy.\<close>

definition objectPrototypeKeys :: "string list" where
  "objectPrototypeKeys =
     [''constructor'', ''hasOwnProperty'', ''isPrototypeOf'', ''propertyIsEnumerable'',
      ''toLocaleString'', ''toString'', ''valueOf'', ''__proto__'', ''__defineGetter__'',
      ''__defineSetter__'', ''__lookupGetter__'', ''__lookupSetter__'']"

text \<open>
  \<open>candidateBaseColors[winningCandidate] || "#cccccc"\<close>: an own entry of the table, else
  an inherited member, else the fallback.
\<close>

definition baseColorOf :: "string \<Rightarrow> jsValue" where
  "baseColorOf w =
     (case map_of candidateBaseColors w of
        Some c \<Rightarrow> Str c
      | None \<Rightarrow> (if w \<in> set objectPrototypeKeys then Inherited w else Str ''#cccccc''))"

text \<open>
  \<open>winPercentage\<close>: the votes of the winner are read back from the mapping. \<open>None\<close>
  stands for the not-a-number that a missing entry would give; every comparison with
  it is false.
\<close>

definition winPercentage :: "PrecinctResult \<Rightarrow> string \<Rightarrow> rat option" where
  "winPercentage r w =
     (if votes r > 0
      then (case map_of (results r) w of
              Some winningVotes \<Rightarrow> Some (percentOf (of_int winningVotes) (of_int (votes r)))
            | None \<Rightarrow> None)
      else Some 0)"

definition atLeast_num :: "rat option \<Rightarrow> rat \<Rightarrow> bool" where
  "atLeast_num p t = (case p of None \<Rightarrow> False | Some x \<Rightarrow> x \<ge> t)"

definition resultsFill :: "jsValue \<Rightarrow> rat option \<Rightarrow> error + jsValue" where
  "resultsFill baseColor p =
     (if atLeast_num p 80 then darken baseColor (fl (3 / 10))
      else if atLeast_num p 60 then darken baseColor (fl (2 / 10))
      else if atLeast_num p 50 then Inr baseColor
      else if atLeast_num p 40 then lighten baseColor (fl (2 / 10))
      else lighten baseColor (fl (4 / 10)))"

definition stylePrecinctByResults ::
  "PrecinctResult list \<Rightarrow> ('b props_scheme, 'a) feature_scheme \<Rightarrow> error + style" where
  "stylePrecinctByResults precincts f =
     (case readElectDist f of
        Inl e \<Rightarrow> Inl e
      | Inr electDist \<Rightarrow>
          (case callGetPrecinctResults precincts electDist of
             Inl e \<Rightarrow> Inl e
           | Inr precinctResults \<Rightarrow>
               (case (precinctResults, getWinningCandidate precinctResults) of
                  (Some r, Some w) \<Rightarrow>
                    (case resultsFill (baseColorOf w) (winPercentage r w) of
                       Inl e \<Rightarrow> Inl e
                     | Inr fc \<Rightarrow>
                         Inr \<lparr>fillColor = fc, weight = 1, opacity = 1, color = ''white'',
                              dashArray = Some ''3'', fillOpacity = fl (7 / 10)\<rparr>)
                | _ \<Rightarrow>
                    Inr \<lparr>fillColor = Str ''#cccccc'', weight = 1, opacity = 1,
                         color = ''white'', dashArray = Some ''3'',
                         fillOpacity = fl (7 / 10)\<rparr>)))"

definition turnoutFill :: "rat \<Rightarrow> string" where
  "turnoutFill p =
     (if p \<ge> 60 then ''#1a365d''
      else if p \<ge> 50 then ''#2c5282''
      else if p \<ge> 40 then ''#3182ce''
      else if p \<ge> 30 then ''#63b3ed''
      else if p \<ge> 20 then ''#90cdf4''
      else ''#bee3f8'')"

definition demTurnoutPercentage :: "PrecinctResult \<Rightarrow> VoterCounts \<Rightarrow> rat" where
  "demTurnoutPercentage r voterData =
     percentOf (of_int (votes r)) (of_int (democrats voterData))"

definition stylePrecinctByTurnout ::
  "PrecinctResult list \<Rightarrow> (int option \<Rightarrow> VoterCounts option) \<Rightarrow>
   ('b props_scheme, 'a) feature_scheme \<Rightarrow> error + style" where
  "stylePrecinctByTurnout precincts getVoterCounts f =
     (case readElectDist f of
        Inl e \<Rightarrow> Inl e
      | Inr electDist \<Rightarrow>
          (case callGetPrecinctResults precincts electDist of
             Inl e \<Rightarrow> Inl e
           | Inr precinctResults \<Rightarrow>
               (case (precinctResults, getVoterCounts electDist) of
                  (Some r, Some voterData) \<Rightarrow>
                    (if democrats voterData = 0
                     then Inr \<lparr>fillColor = Str ''#cccccc'', weight = 1, opacity = 1,
                               color = ''white'', dashArray = Some ''3'',
                               fillOpacity = fl (7 / 10)\<rparr>
                     else Inr \<lparr>fillColor = Str (turnoutFill (demTurnoutPercentage r voterData)),
                               weight = 1, opacity = 1, color = ''white'',
                               dashArray = Some ''3'', fillOpacity = fl (7 / 10)\<rparr>)
                | _ \<Rightarrow>
                    Inr \<lparr>fillColor = Str ''#cccccc'', weight = 1, opacity = 1,
                         color = ''white'', dashArray = Some ''3'',
                         fillOpacity = fl (7 / 10)\<rparr>)))"

definition demPercentage :: "VoterCounts \<Rightarrow> rat" where
  "demPercentage voterData =
     (if total_reg voterData > 0
      then percentOf (of_int (democrats voterData)) (of_int (total_reg voterData))
      else 0)"

definition votersFill :: "rat \<Rightarrow> string" where
  "votersFill p =
     (if p < 30 then ''#d62728''
      else if p < 40 then ''#ff7f0e''
      else if p < 50 then ''#ffbb78''
      else if p < 60 then ''#aec7e8''
      else if p < 70 then ''#1f77b4''
      else ''#0d47a1'')"

definition stylePrecinctByVoters ::
  "(int option \<Rightarrow> VoterCounts option) \<Rightarrow> ('b props_scheme, 'a) feature_scheme \<Rightarrow>
   error + style" where
  "stylePrecinctByVoters getVoterCounts f =
     (case readElectDist f of
        Inl e \<Rightarrow> Inl e
      | Inr electDist \<Rightarrow>
          (case getVoterCounts electDist of
             None \<Rightarrow>
               Inr \<lparr>fillColor = Str ''#cccccc'', weight = 1, opacity = 1, color = ''white'',
                    dashArray = Some ''3'', fillOpacity = fl (7 / 10)\<rparr>
           | Some voterData \<Rightarrow>
               Inr \<lparr>fillColor = Str (votersFill (demPercentage voterData)), weight = 1,
                    opacity = 1, color = ''white'', dashArray = Some ''3'',
                    fillOpacity = fl (7 / 10)\<rparr>))"

text \<open>\<open>precinctResults.results["mamdani-z"] || 0\<close>.\<close>

definition zohranVotes :: "PrecinctResult \<Rightarrow> int" where
  "zohranVotes r = (case map_of (results r) ''mamdani-z'' of Some v \<Rightarrow> v | None \<Rightarrow> 0)"

definition zohranSupportPercentage :: "PrecinctResult \<Rightarrow> VoterCounts \<Rightarrow> rat" where
  "zohranSupportPercentage r voterData =
     percentOf (of_int (zohranVotes r)) (of_int (total_reg voterData))"

definition zohranFill :: "rat \<Rightarrow> string" where
  "zohranFill p =
     (if p \<ge> 20 then ''#276419''
      else if p \<ge> 15 then ''#4d9221''
      else if p \<ge> 10 then ''#7fbc41''
      else if p \<ge> 15 / 2 then ''#b8e186''
      else if p \<ge> 5 then ''#d9f0a3''
      else if p \<ge> 5 / 2 then ''#f1b6da''
      else if p > 0 then ''#de77ae''
      else ''#c51b7d'')"

definition stylePrecinctByZohranSupport ::
  "PrecinctResult list \<Rightarrow> (int option \<Rightarrow> VoterCounts option) \<Rightarrow>
   ('b props_scheme, 'a) feature_scheme \<Rightarrow> error + style" where
  "stylePrecinctByZohranSupport precincts getVoterCounts f =
     (case readElectDist f of
        Inl e \<Rightarrow> Inl e
      | Inr electDist \<Rightarrow>
          (case callGetPrecinctResults precincts electDist of
             Inl e \<Rightarrow> Inl e
           | Inr precinctResults \<Rightarrow>
               (case (precinctResults, getVoterCounts electDist) of
                  (Some r, Some voterData) \<Rightarrow>
                    (if total_reg voterData = 0
                     then Inr \<lparr>fillColor = Str ''#cccccc'', weight = 1, opacity = 1,
                               color = ''white'', dashArray = Some ''3'',
                               fillOpacity = fl (7 / 10)\<rparr>
                     else Inr \<lparr>fillColor = Str (zohranFill (zohranSupportPercentage r voterData)),
                               weight = 1, opacity = 1, color = ''white'',
                               dashArray = Some ''3'', fillOpacity = fl (7 / 10)\<rparr>)
                | _ \<Rightarrow>
                    Inr \<lparr>fillColor = Str ''#cccccc'', weight = 1, opacity = 1,
                         color = ''white'', dashArray = Some ''3'',
                         fillOpacity = fl (7 / 10)\<rparr>)))"

text \<open>The dispatcher of the map component: every mode but three styles by registration.\<close>

definition styleFunction ::
  "PrecinctResult list \<Rightarrow> (int option \<Rightarrow> VoterCounts option) \<Rightarrow> ViewMode \<Rightarrow>
   ('b props_scheme, 'a) feature_scheme \<Rightarrow> error + style"
  where
  "styleFunction precincts getVoterCounts viewMode =
     (if viewMode = ElectionResults then stylePrecinctByResults precincts
      else if viewMode = Turnout then stylePrecinctByTurnout precincts getVoterCounts
      else if viewMode = ZohranSupport then stylePrecinctByZohranSupport precincts getVoterCounts
      else stylePrecinctByVoters getVoterCounts)"

text \<open>The fill colour of a returned style, or the error.\<close>

definition fillOf :: "error + style \<Rightarrow> error + jsValue" where
  "fillOf res = map_sum id fillColor res"

subsection \<open>The earlier component\<close>

text \<open>
  \<open>stylePrecinct\<close> colours by winner only, from a colour table with the same entries
  as \<open>candidateBaseColors\<close>. After the join it draws \<open>Math.random()\<close>, here the argument
  \<open>rnd\<close>, and writes a console line when the draw is below one percent; the second
  component of the result says whether that line is written.
\<close>

definition stylePrecinct ::
  "PrecinctResult list \<Rightarrow> rat \<Rightarrow> ('b props_scheme, 'a) feature_scheme \<Rightarrow>
   error + style \<times> bool" where
  "stylePrecinct precincts rnd f =
     (case readElectDist f of
        Inl e \<Rightarrow> Inl e
      | Inr electDist \<Rightarrow>
          (case callGetPrecinctResults precincts electDist of
             Inl e \<Rightarrow> Inl e
           | Inr precinctResults \<Rightarrow>
               (let winningCandidate = getWinningCandidate precinctResults;
                    logged = (rnd < 1 / 100)
                in Inr (\<lparr>fillColor =
                            (case winningCandidate of
                               Some w \<Rightarrow> baseColorOf w
                             | None \<Rightarrow> Str ''#cccccc''),
                          weight = 1, opacity = 1, color = ''white'', dashArray = Some ''3'',
                          fillOpacity = fl (7 / 10)\<rparr>, logged))))"

subsection \<open>Census tracts and the Gen-Z share\<close>

text \<open>One round of the loop over the age brackets; each \<open>+=\<close> rounds the sum.\<close>

definition genZStep :: "string \<times> int option \<Rightarrow> rat \<Rightarrow> rat" where
  "genZStep e genZCount =
     (case snd e of
        None \<Rightarrow> genZCount
      | Some count \<Rightarrow>
          (if count > 0
           then (if fst e = ''10 to 14 years''
                 then fadd genZCount (fmul (of_int count) (fl (8 / 10)))
                 else if fst e = ''15 to 19 years'' then fadd genZCount (of_int count)
                 else if fst e = ''20 to 24 years'' then fadd genZCount (of_int count)
                 else if fst e = ''25 to 29 years''
                 then fadd genZCount (fmul (of_int count) (fl (4 / 10)))
                 else genZCount)
           else genZCount))"

definition genZCount :: "(string \<times> int option) list \<Rightarrow> rat" where
  "genZCount ags = fold genZStep ags 0"

definition calculateGenZPercentage ::
  "(string \<times> int option) list option \<Rightarrow> int \<Rightarrow> rat option" where
  "calculateGenZPercentage groups population =
     (case groups of
        None \<Rightarrow> None
      | Some ags \<Rightarrow>
          (if population = 0 then None
           else if genZCount ags = 0 then None
           else Some (percentOf (genZCount ags) (of_int population))))"

definition genZFill :: "rat \<Rightarrow> string" where
  "genZFill p =
     (if p \<ge> 30 then ''#276419''
      else if p \<ge> 25 then ''#4d9221''
      else if p \<ge> 20 then ''#7fbc41''
      else if p \<ge> 15 then ''#b8e186''
      else if p \<ge> 10 then ''#f1b6da''
      else if p \<ge> 5 then ''#de77ae''
      else ''#c51b7d'')"

definition censusNoData :: "bool \<Rightarrow> style" where
  "censusNoData isPrimaryView =
     \<lparr>fillColor = Str ''#cccccc'', weight = (if isPrimaryView then 1 else 1 / 2), opacity = 1,
      color = (if isPrimaryView then ''#666666'' else ''#888888''), dashArray = None,
      fillOpacity = (if isPrimaryView then fl (7 / 10) else fl (3 / 10))\<rparr>"

definition styleCensusTract :: "'a censusTract_scheme \<Rightarrow> bool \<Rightarrow> style" where
  "styleCensusTract f isPrimaryView =
     (case totalPopulation f of
        None \<Rightarrow> censusNoData isPrimaryView
      | Some totalPop \<Rightarrow>
          (if totalPop = 0 then censusNoData isPrimaryView
           else (case calculateGenZPercentage (ageGroups f) totalPop of
                   None \<Rightarrow> censusNoData isPrimaryView
                 | Some genZPercentage \<Rightarrow>
                     \<lparr>fillColor = Str (genZFill genZPercentage),
                      weight = (if isPrimaryView then 1 else 1 / 2), opacity = 1,
                      color = (if isPrimaryView then ''#333333'' else ''#888888''),
                      dashArray = (if isPrimaryView then None else Some ''2''),
                      fillOpacity = (if isPrimaryView then fl (7 / 10) else fl (3 / 10))\<rparr>)))"

text \<open>
  The popup of a census tract calls \<open>calculateGenZPercentage(props?.ageGroups, totalPop || 0)\<close>.
\<close>

definition tractGenZPercentage :: "'a censusTract_scheme \<Rightarrow> rat option" where
  "tractGenZPercentage f =
     calculateGenZPercentage (ageGroups f)
       (case totalPopulation f of None \<Rightarrow> 0 | Some totalPop \<Rightarrow> totalPop)"

subsection \<open>Metrics of the popup\<close>

text \<open>
  The election section of the popup shows the overall turnout and the support for the
  targeted candidate only under a guard; \<open>None\<close> is the empty info string, \<open>Some p\<close>
  the percentage before it is formatted.
\<close>

definition popupTurnoutPercentage :: "PrecinctResult \<Rightarrow> VoterCounts option \<Rightarrow> rat option" where
  "popupTurnoutPercentage r voterData =
     (case voterData of
        None \<Rightarrow> None
      | Some v \<Rightarrow>
          (if total_reg v > 0 then Some (percentOf (of_int (votes r)) (of_int (total_reg v)))
           else None))"

definition popupZohranSupportPercentage ::
  "PrecinctResult \<Rightarrow> VoterCounts option \<Rightarrow> rat option" where
  "popupZohranSupportPercentage r voterData =
     (case voterData of
        None \<Rightarrow> None
      | Some v \<Rightarrow>
          (if total_reg v > 0
           then Some (percentOf (of_int (zohranVotes r)) (of_int (total_reg v)))
           else None))"

subsection \<open>Fixtures\<close>

text \<open>
  A small snapshot used to run the functions: precinct 5 has write-in votes only,
  precinct 7 is stored twice and its first record is a tie at fifty percent, precinct 9
  has no registered voters, precinct 11 is won with ninety percent, and in precinct 13
  all votes go to a candidate whose key is an inherited name.
\<close>

definition examplePrecincts :: "PrecinctResult list" where
  "examplePrecincts =
     [\<lparr>item_id = ''5'', votes = 4, results = [(''total_writeins'', 4)]\<rparr>,
      \<lparr>item_id = ''7'', votes = 10,
       results = [(''cuomo-a'', 5), (''lander-b'', 5), (''total_writeins'', 0)]\<rparr>,
      \<lparr>item_id = ''7'', votes = 3, results = [(''mamdani-z'', 3)]\<rparr>,
      \<lparr>item_id = ''9'', votes = 6, results = [(''mamdani-z'', 6)]\<rparr>,
      \<lparr>item_id = ''11'', votes = 10, results = [(''cuomo-a'', 9), (''lander-b'', 1)]\<rparr>,
      \<lparr>item_id = ''13'', votes = 2, results = [(''constructor'', 2)]\<rparr>]"

definition exampleVoterCounts :: "int option \<Rightarrow> VoterCounts option" where
  "exampleVoterCounts d =
     (if d = Some 7
      then Some \<lparr>district = 7, county = ''Kings'', democrats = 600, republicans = 200,
                 conservatives = 0, working_families = 0, other = 0, blank = 200,
                 total_reg = 1000\<rparr>
      else if d = Some 9
      then Some \<lparr>district = 9, county = ''Kings'', democrats = 0, republicans = 0,
                 conservatives = 0, working_families = 0, other = 0, blank = 0,
                 total_reg = 0\<rparr>
      else None)"

text \<open>A feature that carries the given precinct number and nothing else.\<close>

definition precinctFeature :: "int \<Rightarrow> props feature" where
  "precinctFeature d = \<lparr>properties = Some \<lparr>ElectDist = Some d\<rparr>\<rparr>"

subsection \<open>Threshold tables as the specification words them\<close>

text \<open>
  The specification describes each threshold table as ordered bins that are closed at
  their lower boundary and open at their upper boundary, with a top bin unbounded above.
  \<open>halfOpenBin\<close> follows these words: over ascending boundaries, a percentage falls
  into the bin numbered by how many boundaries are at or below it. The boundary and
  colour lists are read off the comparison chains of the three styling functions.
\<close>

definition halfOpenBin :: "rat list \<Rightarrow> string list \<Rightarrow> rat \<Rightarrow> string" where
  "halfOpenBin bounds ramp p = ramp ! length (filter (\<lambda>b. b \<le> p) bounds)"

definition turnoutBounds :: "rat list" where
  "turnoutBounds = [20, 30, 40, 50, 60]"

definition turnoutRamp :: "string list" where
  "turnoutRamp = [''#bee3f8'', ''#90cdf4'', ''#63b3ed'', ''#3182ce'', ''#2c5282'', ''#1a365d'']"

definition votersBounds :: "rat list" where
  "votersBounds = [30, 40, 50, 60, 70]"

definition votersRamp :: "string list" where
  "votersRamp = [''#d62728'', ''#ff7f0e'', ''#ffbb78'', ''#aec7e8'', ''#1f77b4'', ''#0d47a1'']"

definition zohranBounds :: "rat list" where
  "zohranBounds = [0, 5 / 2, 5, 15 / 2, 10, 15, 20]"

definition zohranRamp :: "string list" where
  "zohranRamp =
     [''#c51b7d'', ''#de77ae'', ''#f1b6da'', ''#d9f0a3'', ''#b8e186'', ''#7fbc41'', ''#4d9221'',
      ''#276419'']"

subsection \<open>Notions used to state the properties\<close>

text \<open>A fill colour is defined when it is a \<open>#\<close> followed by six hexadecimal digits.\<close>

definition isHexColor :: "string \<Rightarrow> bool" where
  "isHexColor s =
     (case s of
        [] \<Rightarrow> False
      | c # cs \<Rightarrow> c = CHR ''#'' \<and> length cs = 6 \<and> list_all (\<lambda>d. hexDigit d \<noteq> None) cs)"

text \<open>
  The count of a named age bracket as the specification's formula reads it: the count
  stored under that name, taken as 0 when the bracket is missing, carries no count or
  carries a count that is not positive. \<open>weightedSum\<close> is the formula over the exact
  rationals.
\<close>

definition bracketCount :: "(string \<times> int option) list \<Rightarrow> string \<Rightarrow> rat" where
  "bracketCount ags name =
     (case map_of ags name of
        Some (Some c) \<Rightarrow> (if c > 0 then of_int c else 0)
      | _ \<Rightarrow> 0)"

definition weightedSum :: "(string \<times> int option) list \<Rightarrow> rat" where
  "weightedSum ags =
     8 / 10 * bracketCount ags ''10 to 14 years'' + bracketCount ags ''15 to 19 years''
     + bracketCount ags ''20 to 24 years'' + 4 / 10 * bracketCount ags ''25 to 29 years''"

text \<open>
  The four brackets of the formula, and one round of the loop over the exact rationals;
  both serve to compare the rounded sum of the loop with \<open>weightedSum\<close>.
\<close>

definition genZBrackets :: "string list" where
  "genZBrackets = [''10 to 14 years'', ''15 to 19 years'', ''20 to 24 years'', ''25 to 29 years'']"

definition exactStep :: "string \<times> int option \<Rightarrow> rat \<Rightarrow> rat" where
  "exactStep e s =
     (case snd e of
        None \<Rightarrow> s
      | Some count \<Rightarrow>
          (if count > 0
           then (if fst e = ''10 to 14 years'' then s + of_int count * (8 / 10)
                 else if fst e = ''15 to 19 years'' then s + of_int count
                 else if fst e = ''20 to 24 years'' then s + of_int count
                 else if fst e = ''25 to 29 years'' then s + of_int count * (4 / 10)
                 else s)
           else s))"

text \<open>The relative error of one rounding is at most \<open>unitRoundoff\<close>.\<close>

definition unitRoundoff :: rat where
  "unitRoundoff = 1 / 2 ^ 53"

section \<open>Properties\<close>

subsection \<open>Rounding to doubles\<close>

lemma floor_rat_numeral: "\<lfloor>numeral a / numeral b :: rat\<rfloor> = numeral a div numeral b"
  using floor_divide_of_int_eq [of "numeral a" "numeral b", where ?'a = rat] by simp

lemma ceiling_rat_numeral: "\<lceil>numeral a / numeral b :: rat\<rceil> = - (- numeral a div numeral b)"
  using ceiling_divide_eq_div [of "numeral a" "numeral b", where ?'a = rat] by simp

lemmas fl_eval =
  fl_def fadd_def fsub_def fmul_def fdiv_def percentOf_def binade_def roundHalfEven_def
  compute_floorlog floor_rat_numeral ceiling_rat_numeral power_int_minus_divide Let_def

lemma floorlog2_bounds:
  assumes "0 < n"
  shows "(2::rat) ^ (floorlog 2 n - 1) \<le> of_nat n" "of_nat n + 1 \<le> (2::rat) ^ floorlog 2 n"
    "0 < floorlog 2 n"
proof -
  from floorlog_bounds [of n 2] assms
  have b: "2 ^ (floorlog 2 n - 1) \<le> n" "n + 1 \<le> 2 ^ floorlog 2 n"
    by simp_all
  from b(1) have "(of_nat (2 ^ (floorlog 2 n - 1)) :: rat) \<le> of_nat n"
    by (simp only: of_nat_le_iff)
  then show "(2::rat) ^ (floorlog 2 n - 1) \<le> of_nat n" by simp
  from b(2) have "(of_nat (n + 1) :: rat) \<le> of_nat (2 ^ floorlog 2 n)"
    by (simp only: of_nat_le_iff)
  then show "of_nat n + 1 \<le> (2::rat) ^ floorlog 2 n" by simp
  from assms show "0 < floorlog 2 n"
    using floorlog_eq_zero_iff [of 2 n] by simp
qed

lemma binade_ge_one:
  assumes "1 \<le> x"
  shows "2 powi binade x \<le> x \<and> x < 2 powi (binade x + 1)"
proof -
  define n where "n = nat \<lfloor>x\<rfloor>"
  from assms have "1 \<le> \<lfloor>x\<rfloor>" by (simp add: le_floor_iff)
  then have n0: "0 < n" and nf: "int n = \<lfloor>x\<rfloor>" by (simp_all add: n_def)
  have "of_int \<lfloor>x\<rfloor> \<le> x" "x < of_int \<lfloor>x\<rfloor> + 1" by linarith+
  then have n: "of_nat n \<le> x" "x < of_nat n + 1"
    unfolding nf [symmetric] by simp_all
  note b = floorlog2_bounds [OF n0]
  have e: "binade x = int (floorlog 2 n - 1)"
    using assms b(3) by (simp add: binade_def n_def)
  have e1: "binade x + 1 = int (floorlog 2 n)"
    using e b(3) by simp
  have p: "(2::rat) powi binade x = 2 ^ (floorlog 2 n - 1)"
    by (simp only: e power_int_of_nat)
  have p1: "(2::rat) powi (binade x + 1) = 2 ^ floorlog 2 n"
    by (simp only: e1 power_int_of_nat)
  from b(1,2) n show ?thesis unfolding p p1 by linarith
qed

lemma binade_lt_one:
  assumes "0 < x" "x < 1"
  shows "2 powi binade x \<le> x \<and> x < 2 powi (binade x + 1)"
proof -
  define y where "y = 1 / x"
  define c where "c = \<lceil>y\<rceil>"
  from assms have y: "1 < y" "0 < y" by (simp_all add: y_def)
  have cy: "y \<le> of_int c" "of_int c - 1 < y"
    unfolding c_def by linarith+
  from y(1) cy(1) have "(1::rat) < of_int c" by linarith
  then have c2: "2 \<le> c" by simp
  define n where "n = nat (c - 1)"
  from c2 have n0: "0 < n" and nc: "int n = c - 1" by (simp_all add: n_def)
  have "(of_int (int n) :: rat) = of_int (c - 1)" by (simp only: nc)
  then have nr: "(of_nat n :: rat) = of_int c - 1" by simp
  note b = floorlog2_bounds [OF n0]
  have e: "binade x = - int (floorlog 2 n)"
    using assms by (simp add: binade_def n_def c_def y_def)
  have e1: "binade x + 1 = - int (floorlog 2 n - 1)"
    using e b(3) by simp
  have p: "(2::rat) powi binade x = 1 / 2 ^ floorlog 2 n"
    by (simp only: e power_int_minus_divide power_int_of_nat)
  have p1: "(2::rat) powi (binade x + 1) = 1 / 2 ^ (floorlog 2 n - 1)"
    by (simp only: e1 power_int_minus_divide power_int_of_nat)
  from b(2) nr cy(1) have up: "y \<le> 2 ^ floorlog 2 n" by linarith
  from b(1) nr cy(2) have low: "2 ^ (floorlog 2 n - 1) < y" by linarith
  have xy: "x = 1 / y" using assms by (simp add: y_def)
  have "1 / 2 ^ floorlog 2 n \<le> 1 / y"
    using up y(2) by (intro divide_left_mono) simp_all
  then have lo: "1 / 2 ^ floorlog 2 n \<le> x" by (simp only: xy)
  have "1 / y < 1 / 2 ^ (floorlog 2 n - 1)"
    using low y(2) by (intro divide_strict_left_mono) simp_all
  then have hi: "x < 1 / 2 ^ (floorlog 2 n - 1)" by (simp only: xy)
  from lo hi show ?thesis by (simp only: p p1 simp_thms)
qed

lemma binade_bounds:
  assumes "0 < x"
  shows "2 powi binade x \<le> x" "x < 2 powi (binade x + 1)"
  using binade_ge_one [of x] binade_lt_one [of x] assms by (cases "1 \<le> x"; simp)+

lemma roundHalfEven_near: "\<bar>of_int (roundHalfEven m) - m\<bar> \<le> 1 / 2"
proof -
  have "of_int \<lfloor>m\<rfloor> \<le> m" "m < of_int \<lfloor>m\<rfloor> + 1" by linarith+
  then show ?thesis
    by (auto simp: roundHalfEven_def Let_def abs_le_iff)
qed

lemma roundHalfEven_le_int:
  assumes "m \<le> of_int k"
  shows "roundHalfEven m \<le> k"
proof (cases "\<lfloor>m\<rfloor> = k")
  case True
  with assms have "m = of_int \<lfloor>m\<rfloor>"
    using of_int_floor_le [of m] by simp
  then have "m - of_int \<lfloor>m\<rfloor> = 0" by simp
  then show ?thesis using True by (simp add: roundHalfEven_def Let_def)
next
  case False
  from assms have "\<lfloor>m\<rfloor> \<le> k" by (simp add: floor_le_iff)
  with False have "\<lfloor>m\<rfloor> + 1 \<le> k" by simp
  then show ?thesis by (simp add: roundHalfEven_def Let_def)
qed

lemma roundHalfEven_ge_int:
  assumes "of_int k \<le> m"
  shows "k \<le> roundHalfEven m"
proof -
  from assms have "k \<le> \<lfloor>m\<rfloor>" by (simp add: le_floor_iff)
  then show ?thesis by (simp add: roundHalfEven_def Let_def)
qed

lemma mantissa_bounds:
  assumes "0 < x"
  shows "2 ^ 52 \<le> x / 2 powi (binade x - 52)" "x / 2 powi (binade x - 52) < 2 ^ 53"
proof -
  have p: "(2::rat) powi (binade x - 52) = 2 powi binade x / 2 ^ 52"
    by (simp add: power_int_diff)
  have q: "(2::rat) powi (binade x + 1) = 2 powi binade x * 2"
    by (simp add: power_int_add)
  have pos: "0 < (2::rat) powi binade x" by (simp add: zero_less_power_int)
  from binade_bounds [OF assms] pos
  show "2 ^ 52 \<le> x / 2 powi (binade x - 52)" "x / 2 powi (binade x - 52) < 2 ^ 53"
    unfolding p q by (simp_all add: field_simps)
qed

lemma fl_positive_eq:
  assumes "0 < x"
  shows "fl x = of_int (roundHalfEven (x / 2 powi (binade x - 52))) * 2 powi (binade x - 52)"
  using assms by (simp add: fl_def Let_def)

lemma fl_pos:
  assumes "0 < x"
  shows "0 < fl x"
proof -
  from mantissa_bounds(1) [OF assms]
  have "of_int (2 ^ 52) \<le> x / 2 powi (binade x - 52)" by simp
  then have "2 ^ 52 \<le> roundHalfEven (x / 2 powi (binade x - 52))"
    by (rule roundHalfEven_ge_int)
  then have "0 < roundHalfEven (x / 2 powi (binade x - 52))" by simp
  then show ?thesis
    by (simp add: fl_positive_eq [OF assms] zero_less_power_int)
qed

lemma fl_zero [simp]: "fl 0 = 0"
  by (simp add: fl_def)

lemma fl_error:
  assumes "0 < x"
  shows "\<bar>fl x - x\<bar> \<le> x * unitRoundoff"
proof -
  define s :: rat where "s = 2 powi (binade x - 52)"
  define m where "m = x / s"
  have s: "0 < s" by (simp add: s_def zero_less_power_int)
  then have x: "x = m * s" by (simp add: m_def)
  have m: "2 ^ 52 \<le> m" using mantissa_bounds(1) [OF assms] by (simp add: m_def s_def)
  have "fl x - x = (of_int (roundHalfEven m) - m) * s"
    using fl_positive_eq [OF assms] by (simp add: m_def s_def algebra_simps)
  then have "\<bar>fl x - x\<bar> = \<bar>of_int (roundHalfEven m) - m\<bar> * s"
    using s by (simp add: abs_mult)
  also have "\<dots> \<le> 1 / 2 * s"
    using roundHalfEven_near [of m] s by (intro mult_right_mono) simp_all
  also have "\<dots> \<le> m / 2 ^ 53 * s"
    using m s by (intro mult_right_mono) simp_all
  finally show ?thesis by (simp add: x unitRoundoff_def)
qed

lemma fl_between:
  assumes "0 < x"
  shows "x * (1 - unitRoundoff) \<le> fl x" "fl x \<le> x * (1 + unitRoundoff)"
proof -
  from fl_error [OF assms]
  have a: "fl x - x \<le> x * unitRoundoff" and b: "x - fl x \<le> x * unitRoundoff"
    by (simp_all add: abs_le_iff)
  have c: "x * (1 - unitRoundoff) = x - x * unitRoundoff"
    by (simp add: algebra_simps)
  have d: "x * (1 + unitRoundoff) = x + x * unitRoundoff"
    by (simp add: algebra_simps)
  from b show "x * (1 - unitRoundoff) \<le> fl x" unfolding c by linarith
  from a show "fl x \<le> x * (1 + unitRoundoff)" unfolding d by linarith
qed

lemma fl_le_nat:
  assumes "0 < x" "x \<le> of_nat N" "N < 2 ^ 53"
  shows "fl x \<le> of_nat N"
proof -
  define e where "e = binade x - 52"
  have "(2::rat) powi binade x \<le> x" using binade_bounds(1) [OF assms(1)] .
  also have "\<dots> \<le> of_nat N" by fact
  also have "\<dots> < of_nat (2 ^ 53)" using assms(3) by (simp only: of_nat_less_iff)
  finally have lt: "(2::rat) powi binade x < 2 ^ 53" by simp
  have "binade x < 53"
  proof (rule power_int_le_imp_less_exp [of "2::rat"])
    show "1 < (2::rat)" by simp
    show "(2::rat) powi binade x < 2 powi 53" using lt by simp
    show "(0::int) \<le> 53" by simp
  qed
  then have e0: "e \<le> 0" by (simp add: e_def)
  define k where "k = nat (- e)"
  from e0 have ek: "e = - int k" by (simp add: k_def)
  have s: "(2::rat) powi e = 1 / 2 ^ k"
    by (simp only: ek power_int_minus_divide power_int_of_nat)
  define r where "r = roundHalfEven (x / 2 powi e)"
  have m: "x / 2 powi e = x * 2 ^ k" by (simp only: s) simp
  have "x * 2 ^ k \<le> of_nat N * 2 ^ k"
    using assms(2) by (intro mult_right_mono) simp_all
  also have "\<dots> = of_int (int N * 2 ^ k)" by simp
  finally have "x / 2 powi e \<le> of_int (int N * 2 ^ k)" by (simp only: m)
  then have "r \<le> int N * 2 ^ k"
    unfolding r_def by (rule roundHalfEven_le_int)
  then have "(of_int r :: rat) \<le> of_int (int N * 2 ^ k)"
    by (simp only: of_int_le_iff)
  then have "(of_int r :: rat) \<le> of_nat N * 2 ^ k" by simp
  then have le: "(of_int r :: rat) / 2 ^ k \<le> of_nat N"
    by (simp add: pos_divide_le_eq)
  have "fl x = of_int r * 2 powi e"
    using fl_positive_eq [OF assms(1)] by (simp only: r_def e_def)
  then have "fl x = of_int r / 2 ^ k" by (simp only: s) simp
  with le show ?thesis by simp
qed

lemma fl_nonneg: "0 \<le> x \<Longrightarrow> 0 \<le> fl x"
  using fl_pos [of x] by (cases "x = 0") (simp_all add: less_le)

subsection \<open>Evaluating the fixtures\<close>

lemma numberToString_digit:
  "numberToString 5 = ''5''" "numberToString 7 = ''7''" "numberToString 9 = ''9''"
  "numberToString 3 = ''3''" "numberToString 1 = ''1''" "numberToString 11 = ''11''"
  "numberToString 13 = ''13''"
  by (simp_all add: numberToString_def decimal.simps digitChar_def)

lemma example_join:
  "getPrecinctResults examplePrecincts 7 =
     Some \<lparr>item_id = ''7'', votes = 10,
           results = [(''cuomo-a'', 5), (''lander-b'', 5), (''total_writeins'', 0)]\<rparr>"
  "getPrecinctResults examplePrecincts 5 =
     Some \<lparr>item_id = ''5'', votes = 4, results = [(''total_writeins'', 4)]\<rparr>"
  "getPrecinctResults examplePrecincts 9 =
     Some \<lparr>item_id = ''9'', votes = 6, results = [(''mamdani-z'', 6)]\<rparr>"
  "getPrecinctResults examplePrecincts 3 = None"
  "getPrecinctResults examplePrecincts 11 =
     Some \<lparr>item_id = ''11'', votes = 10, results = [(''cuomo-a'', 9), (''lander-b'', 1)]\<rparr>"
  "getPrecinctResults examplePrecincts 13 =
     Some \<lparr>item_id = ''13'', votes = 2, results = [(''constructor'', 2)]\<rparr>"
  by (simp_all add: getPrecinctResults_def examplePrecincts_def numberToString_digit)

lemma readElectDist_precinctFeature: "readElectDist (precinctFeature d) = Inr (Some d)"
  by (simp add: readElectDist_def precinctFeature_def)

lemma fl_consts:
  "fl (3 / 10) = 5404319552844595 / 18014398509481984"
  "fl (2 / 10) = 3602879701896397 / 18014398509481984"
  "fl (4 / 10) = 3602879701896397 / 9007199254740992"
  "fl (8 / 10) = 3602879701896397 / 4503599627370496"
  by (simp_all add: fl_eval)

lemma darken_amounts:
  "fsub 1 (fl (3 / 10)) = 3152519739159347 / 4503599627370496"
  "fsub 1 (fl (2 / 10)) = 3602879701896397 / 4503599627370496"
  by (simp_all add: fl_consts) (simp_all add: fl_eval)

subsection \<open>The join resolver\<close>

text \<open>
  Claim C8. \<open>getPrecinctResults\<close> returns the first record, in stored order, whose
  \<open>item_id\<close> is the decimal string of the queried precinct number: a returned record
  carries that identifier and no earlier record does, so duplicates resolve to the
  first stored match; and the result is \<open>None\<close> (undefined), not a failure, exactly
  when no record matches.
\<close>

theorem getPrecinctResults_first_match:
  "(getPrecinctResults precincts electDist = None \<longleftrightarrow>
      (\<forall>p \<in> set precincts. item_id p \<noteq> numberToString electDist)) \<and>
   (\<forall>r. getPrecinctResults precincts electDist = Some r \<longrightarrow>
      (\<exists>i < length precincts. precincts ! i = r \<and> item_id r = numberToString electDist \<and>
         (\<forall>j < i. item_id (precincts ! j) \<noteq> numberToString electDist)))"
  unfolding getPrecinctResults_def
  by (auto simp: find_None_iff find_Some_iff)

theorem getPrecinctResults_first_match_witness:
  "getPrecinctResults examplePrecincts 7 = Some (examplePrecincts ! 1) \<and>
   item_id (examplePrecincts ! 2) = numberToString 7 \<and>
   (\<exists>i < length examplePrecincts. examplePrecincts ! i = examplePrecincts ! 1 \<and>
      item_id (examplePrecincts ! 1) = numberToString 7 \<and>
      (\<forall>j < i. item_id (examplePrecincts ! j) \<noteq> numberToString 7)) \<and>
   getPrecinctResults examplePrecincts 3 = None \<and>
   \<not> (\<exists>p \<in> set examplePrecincts. item_id p = numberToString 3)"
proof -
  have found: "getPrecinctResults examplePrecincts 7 = Some (examplePrecincts ! 1)"
    by (simp add: example_join) (simp add: examplePrecincts_def)
  have dup: "item_id (examplePrecincts ! 2) = numberToString 7"
    by (simp add: examplePrecincts_def numberToString_digit)
  have missing: "getPrecinctResults examplePrecincts 3 = None"
    by (simp add: example_join)
  from getPrecinctResults_first_match [of examplePrecincts 7] found
  have first: "\<exists>i < length examplePrecincts. examplePrecincts ! i = examplePrecincts ! 1 \<and>
      item_id (examplePrecincts ! 1) = numberToString 7 \<and>
      (\<forall>j < i. item_id (examplePrecincts ! j) \<noteq> numberToString 7)"
    by blast
  from getPrecinctResults_first_match [of examplePrecincts 3] missing
  have none: "\<not> (\<exists>p \<in> set examplePrecincts. item_id p = numberToString 3)"
    by blast
  from found dup first missing none show ?thesis by blast
qed

subsection \<open>The frame of the style object\<close>

lemma baseColorOf_own:
  assumes "w \<notin> set objectPrototypeKeys"
  shows "\<exists>c. baseColorOf w = Str c"
  using assms by (simp add: baseColorOf_def split: option.split)

lemma resultsFill_Str: "\<exists>c'. resultsFill (Str c) p = Inr (Str c')"
  by (simp add: resultsFill_def darken_def lighten_def)

lemma stylePrecinctByResults_returns:
  assumes "readElectDist f = Inr (Some d)"
    and "\<forall>w. getWinningCandidate (getPrecinctResults precincts d) = Some w \<longrightarrow>
           w \<notin> set objectPrototypeKeys"
  shows "\<exists>s. stylePrecinctByResults precincts f = Inr s"
proof (cases "getPrecinctResults precincts d")
  case None
  with assms(1) show ?thesis
    by (simp add: stylePrecinctByResults_def callGetPrecinctResults_def getWinningCandidate_def)
next
  case (Some r)
  show ?thesis
  proof (cases "getWinningCandidate (Some r)")
    case None
    with Some assms(1) show ?thesis
      by (simp add: stylePrecinctByResults_def callGetPrecinctResults_def)
  next
    case w: (Some w)
    with Some assms(2) have "w \<notin> set objectPrototypeKeys" by simp
    from baseColorOf_own [OF this] obtain c where c: "baseColorOf w = Str c" by blast
    from resultsFill_Str [of c "winPercentage r w"]
    obtain c' where c': "resultsFill (Str c) (winPercentage r w) = Inr (Str c')" by blast
    from Some w c c' assms(1) show ?thesis
      by (simp add: stylePrecinctByResults_def callGetPrecinctResults_def)
  qed
qed

text \<open>
  Claim C10. Every style that one of the four precinct styling functions returns has
  the same fields other than \<open>fillColor\<close>, on every input and in every branch: weight 1,
  opacity 1, colour white, dash array 3 and fill opacity 0.7 (the double written
  \<open>0.7\<close>). And each of them does return a style for a feature that carries a precinct
  number, the results view when the winning key is not a name inherited from
  \<open>Object.prototype\<close>.
\<close>

theorem precinct_style_frame:
  "(\<forall>s. stylePrecinctByResults precincts f = Inr s \<longrightarrow>
      s = \<lparr>fillColor = fillColor s, weight = 1, opacity = 1, color = ''white'',
           dashArray = Some ''3'', fillOpacity = fl (7 / 10)\<rparr>) \<and>
   (\<forall>s. stylePrecinctByTurnout precincts getVoterCounts f = Inr s \<longrightarrow>
      s = \<lparr>fillColor = fillColor s, weight = 1, opacity = 1, color = ''white'',
           dashArray = Some ''3'', fillOpacity = fl (7 / 10)\<rparr>) \<and>
   (\<forall>s. stylePrecinctByVoters getVoterCounts f = Inr s \<longrightarrow>
      s = \<lparr>fillColor = fillColor s, weight = 1, opacity = 1, color = ''white'',
           dashArray = Some ''3'', fillOpacity = fl (7 / 10)\<rparr>) \<and>
   (\<forall>s. stylePrecinctByZohranSupport precincts getVoterCounts f = Inr s \<longrightarrow>
      s = \<lparr>fillColor = fillColor s, weight = 1, opacity = 1, color = ''white'',
           dashArray = Some ''3'', fillOpacity = fl (7 / 10)\<rparr>) \<and>
   (readElectDist f = Inr (Some d) \<longrightarrow>
      (\<exists>s. stylePrecinctByTurnout precincts getVoterCounts f = Inr s) \<and>
      (\<exists>s. stylePrecinctByVoters getVoterCounts f = Inr s) \<and>
      (\<exists>s. stylePrecinctByZohranSupport precincts getVoterCounts f = Inr s) \<and>
      ((\<forall>w. getWinningCandidate (getPrecinctResults precincts d) = Some w \<longrightarrow>
           w \<notin> set objectPrototypeKeys) \<longrightarrow>
         (\<exists>s. stylePrecinctByResults precincts f = Inr s)))"
proof -
  have r: "\<forall>s. stylePrecinctByResults precincts f = Inr s \<longrightarrow>
      s = \<lparr>fillColor = fillColor s, weight = 1, opacity = 1, color = ''white'',
           dashArray = Some ''3'', fillOpacity = fl (7 / 10)\<rparr>"
    by (auto simp: stylePrecinctByResults_def split: sum.splits option.splits)
  have t: "\<forall>s. stylePrecinctByTurnout precincts getVoterCounts f = Inr s \<longrightarrow>
      s = \<lparr>fillColor = fillColor s, weight = 1, opacity = 1, color = ''white'',
           dashArray = Some ''3'', fillOpacity = fl (7 / 10)\<rparr>"
    by (auto simp: stylePrecinctByTurnout_def split: sum.splits option.splits if_splits)
  have v: "\<forall>s. stylePrecinctByVoters getVoterCounts f = Inr s \<longrightarrow>
      s = \<lparr>fillColor = fillColor s, weight = 1, opacity = 1, color = ''white'',
           dashArray = Some ''3'', fillOpacity = fl (7 / 10)\<rparr>"
    by (auto simp: stylePrecinctByVoters_def split: sum.splits option.splits)
  have z: "\<forall>s. stylePrecinctByZohranSupport precincts getVoterCounts f = Inr s \<longrightarrow>
      s = \<lparr>fillColor = fillColor s, weight = 1, opacity = 1, color = ''white'',
           dashArray = Some ''3'', fillOpacity = fl (7 / 10)\<rparr>"
    by (auto simp: stylePrecinctByZohranSupport_def split: sum.splits option.splits if_splits)
  have ret: "readElectDist f = Inr (Some d) \<longrightarrow>
      (\<exists>s. stylePrecinctByTurnout precincts getVoterCounts f = Inr s) \<and>
      (\<exists>s. stylePrecinctByVoters getVoterCounts f = Inr s) \<and>
      (\<exists>s. stylePrecinctByZohranSupport precincts getVoterCounts f = Inr s) \<and>
      ((\<forall>w. getWinningCandidate (getPrecinctResults precincts d) = Some w \<longrightarrow>
           w \<notin> set objectPrototypeKeys) \<longrightarrow>
         (\<exists>s. stylePrecinctByResults precincts f = Inr s))"
  proof (intro impI conjI)
    assume e: "readElectDist f = Inr (Some d)"
    then show "\<exists>s. stylePrecinctByTurnout precincts getVoterCounts f = Inr s"
      by (simp add: stylePrecinctByTurnout_def callGetPrecinctResults_def split: option.split)
    from e show "\<exists>s. stylePrecinctByVoters getVoterCounts f = Inr s"
      by (simp add: stylePrecinctByVoters_def split: option.split)
    from e show "\<exists>s. stylePrecinctByZohranSupport precincts getVoterCounts f = Inr s"
      by (simp add: stylePrecinctByZohranSupport_def callGetPrecinctResults_def
          split: option.split)
    assume "\<forall>w. getWinningCandidate (getPrecinctResults precincts d) = Some w \<longrightarrow>
           w \<notin> set objectPrototypeKeys"
    with e show "\<exists>s. stylePrecinctByResults precincts f = Inr s"
      by (rule stylePrecinctByResults_returns)
  qed
  show ?thesis by (intro conjI r t v z ret)
qed

theorem precinct_style_frame_witness:
  "readElectDist (precinctFeature 7) = Inr (Some 7) \<and>
   (\<exists>s. stylePrecinctByVoters exampleVoterCounts (precinctFeature 7) = Inr s \<and>
      weight s = 1 \<and> opacity s = 1 \<and> color s = ''white'' \<and> dashArray s = Some ''3'' \<and>
      fillOpacity s = fl (7 / 10)) \<and>
   readElectDist (precinctFeature 3) = Inr (Some 3) \<and>
   getWinningCandidate (getPrecinctResults examplePrecincts 3) = None \<and>
   (\<exists>s. stylePrecinctByResults examplePrecincts (precinctFeature 3) = Inr s \<and>
      weight s = 1 \<and> opacity s = 1 \<and> color s = ''white'' \<and> dashArray s = Some ''3'' \<and>
      fillOpacity s = fl (7 / 10))"
proof -
  note rd = readElectDist_precinctFeature
  note frame = precinct_style_frame
      [where precincts = examplePrecincts and getVoterCounts = exampleVoterCounts]
  have n: "getWinningCandidate (getPrecinctResults examplePrecincts 3) = None"
    by (simp add: example_join getWinningCandidate_def)
  from frame [where f = "precinctFeature 7" and d = 7] rd [of 7]
  obtain s where s: "stylePrecinctByVoters exampleVoterCounts (precinctFeature 7) = Inr s"
    by blast
  from frame [where f = "precinctFeature 3" and d = 3] rd [of 3] n
  obtain t where t: "stylePrecinctByResults examplePrecincts (precinctFeature 3) = Inr t"
    by (simp only: option.distinct) blast
  from frame [where f = "precinctFeature 7"] s
  have a: "s = \<lparr>fillColor = fillColor s, weight = 1, opacity = 1, color = ''white'',
           dashArray = Some ''3'', fillOpacity = fl (7 / 10)\<rparr>"
    by blast
  from frame [where f = "precinctFeature 3"] t
  have b: "t = \<lparr>fillColor = fillColor t, weight = 1, opacity = 1, color = ''white'',
           dashArray = Some ''3'', fillOpacity = fl (7 / 10)\<rparr>"
    by blast
  have "weight s = 1 \<and> opacity s = 1 \<and> color s = ''white'' \<and> dashArray s = Some ''3'' \<and>
      fillOpacity s = fl (7 / 10)"
    by (subst a, simp)+
  moreover have "weight t = 1 \<and> opacity t = 1 \<and> color t = ''white'' \<and>
      dashArray t = Some ''3'' \<and> fillOpacity t = fl (7 / 10)"
    by (subst b, simp)+
  ultimately show ?thesis using s t n rd [of 7] rd [of 3] by blast
qed

subsection \<open>Determinism\<close>

text \<open>
  Claim C9. For a fixed snapshot (the precinct array and the registration lookup), the
  result of styling a feature is a function of its precinct number and the view mode
  alone: two features for which \<open>feature.properties.ElectDist\<close> reads the same,
  whatever else they carry, get equal results, so results may be cached by identifier
  and view mode. In the earlier component the returned style does not depend on the
  random draw that decides the console line.
\<close>

theorem style_depends_on_identifier_only:
  assumes "readElectDist f = readElectDist g"
  shows "styleFunction precincts getVoterCounts viewMode f =
           styleFunction precincts getVoterCounts viewMode g \<and>
         map_sum id fst (stylePrecinct precincts rnd1 f) =
           map_sum id fst (stylePrecinct precincts rnd2 g)"
  using assms
  by (simp add: styleFunction_def stylePrecinctByResults_def stylePrecinctByTurnout_def
      stylePrecinctByVoters_def stylePrecinctByZohranSupport_def stylePrecinct_def Let_def
      split: sum.split)

theorem style_depends_on_identifier_only_witness:
  "readElectDist (precinctFeature 7) =
     readElectDist \<lparr>properties = Some \<lparr>ElectDist = Some 7, \<dots> = ''Kings''\<rparr>, \<dots> = True\<rparr> \<and>
   styleFunction examplePrecincts exampleVoterCounts Turnout (precinctFeature 7) =
     styleFunction examplePrecincts exampleVoterCounts Turnout
       \<lparr>properties = Some \<lparr>ElectDist = Some 7, \<dots> = ''Kings''\<rparr>, \<dots> = True\<rparr> \<and>
   map_sum id fst (stylePrecinct examplePrecincts 0 (precinctFeature 7)) =
     map_sum id fst (stylePrecinct examplePrecincts (1 / 2)
       \<lparr>properties = Some \<lparr>ElectDist = Some 7, \<dots> = ''Kings''\<rparr>, \<dots> = True\<rparr>) \<and>
   map_sum id snd (stylePrecinct examplePrecincts 0 (precinctFeature 7)) \<noteq>
     map_sum id snd (stylePrecinct examplePrecincts (1 / 2)
       \<lparr>properties = Some \<lparr>ElectDist = Some 7, \<dots> = ''Kings''\<rparr>, \<dots> = True\<rparr>)"
proof -
  let ?g = "\<lparr>properties = Some \<lparr>ElectDist = Some 7, \<dots> = ''Kings''\<rparr>, \<dots> = True\<rparr>"
  have same: "readElectDist (precinctFeature 7) = readElectDist ?g"
    by (simp add: readElectDist_def precinctFeature_def)
  have logs: "map_sum id snd (stylePrecinct examplePrecincts 0 (precinctFeature 7)) \<noteq>
     map_sum id snd (stylePrecinct examplePrecincts (1 / 2) ?g)"
    by (simp add: stylePrecinct_def readElectDist_def precinctFeature_def
        callGetPrecinctResults_def Let_def)
  from style_depends_on_identifier_only
         [OF same, of examplePrecincts exampleVoterCounts Turnout 0 "1 / 2"]
    same logs
  show ?thesis by blast
qed

subsection \<open>Support for the targeted candidate\<close>

lemma percentOf_zero: "percentOf 0 y = 0"
  by (simp add: percentOf_def fmul_def fdiv_def)

text \<open>
  Claim C7. When the election record has no \<open>mamdani-z\<close> entry the targeted vote count is 0.
  When the election record is present, the registration total is positive and the
  targeted votes are 0, the support is 0 percent and the fill is the no-support colour
  \<open>#c51b7d\<close>; that colour differs from the no-data colour \<open>#cccccc\<close>, which is the fill
  when the registration record is absent.
\<close>

theorem zohran_no_support_bucket:
  "(map_of (results r) ''mamdani-z'' = None \<longrightarrow> zohranVotes r = 0) \<and>
   (readElectDist f = Inr (Some d) \<and> getPrecinctResults precincts d = Some r \<and>
    getVoterCounts (Some d) = Some voterData \<and>
    total_reg voterData > 0 \<and> zohranVotes r = 0 \<longrightarrow>
      zohranSupportPercentage r voterData = 0 \<and>
      fillOf (stylePrecinctByZohranSupport precincts getVoterCounts f) = Inr (Str ''#c51b7d'')) \<and>
   (readElectDist f = Inr (Some d) \<and> getVoterCounts (Some d) = None \<longrightarrow>
      fillOf (stylePrecinctByZohranSupport precincts getVoterCounts f) = Inr (Str ''#cccccc'')) \<and>
   Str ''#c51b7d'' \<noteq> Str ''#cccccc''"
  by (auto simp: zohranVotes_def zohranSupportPercentage_def stylePrecinctByZohranSupport_def
      zohranFill_def fillOf_def callGetPrecinctResults_def percentOf_zero split: option.split)

theorem zohran_no_support_bucket_witness:
  "map_of (results (examplePrecincts ! 1)) ''mamdani-z'' = None \<and>
   zohranVotes (examplePrecincts ! 1) = 0 \<and>
   readElectDist (precinctFeature 7) = Inr (Some 7) \<and>
   getPrecinctResults examplePrecincts 7 = Some (examplePrecincts ! 1) \<and>
   exampleVoterCounts (Some 7) \<noteq> None \<and>
   fillOf (stylePrecinctByZohranSupport examplePrecincts exampleVoterCounts (precinctFeature 7))
     = Inr (Str ''#c51b7d'') \<and>
   exampleVoterCounts (Some 5) = None \<and>
   fillOf (stylePrecinctByZohranSupport examplePrecincts exampleVoterCounts (precinctFeature 5))
     = Inr (Str ''#cccccc'')"
proof -
  let ?v = "\<lparr>district = 7, county = ''Kings'', democrats = 600, republicans = 200,
             conservatives = 0, working_families = 0, other = 0, blank = 200,
             total_reg = 1000\<rparr>"
  have absent: "map_of (results (examplePrecincts ! 1)) ''mamdani-z'' = None"
    by (simp add: examplePrecincts_def)
  have found: "getPrecinctResults examplePrecincts 7 = Some (examplePrecincts ! 1)"
    by (simp add: example_join) (simp add: examplePrecincts_def)
  have reg: "exampleVoterCounts (Some 7) = Some ?v" "total_reg ?v > 0"
    by (simp_all add: exampleVoterCounts_def)
  have noreg: "exampleVoterCounts (Some 5) = None"
    by (simp add: exampleVoterCounts_def)
  note rd = readElectDist_precinctFeature
  note a = zohran_no_support_bucket
      [where r = "examplePrecincts ! 1" and precincts = examplePrecincts
         and f = "precinctFeature 7" and d = 7 and getVoterCounts = exampleVoterCounts
         and voterData = ?v]
  note b = zohran_no_support_bucket
      [where r = "examplePrecincts ! 1" and precincts = examplePrecincts
         and f = "precinctFeature 5" and d = 5 and getVoterCounts = exampleVoterCounts
         and voterData = ?v]
  from a absent have z: "zohranVotes (examplePrecincts ! 1) = 0" by blast
  from a found reg z rd [of 7]
  have c: "fillOf (stylePrecinctByZohranSupport examplePrecincts exampleVoterCounts
             (precinctFeature 7)) = Inr (Str ''#c51b7d'')"
    by blast
  from b noreg rd [of 5]
  have d: "fillOf (stylePrecinctByZohranSupport examplePrecincts exampleVoterCounts
             (precinctFeature 5)) = Inr (Str ''#cccccc'')"
    by blast
  from absent z found reg(1) c noreg d rd [of 7] show ?thesis by simp
qed

subsection \<open>Threshold tables\<close>

lemma turnoutFill_bins: "turnoutFill p = halfOpenBin turnoutBounds turnoutRamp p"
  by (simp add: turnoutFill_def halfOpenBin_def turnoutBounds_def turnoutRamp_def)

lemma votersFill_bins: "votersFill p = halfOpenBin votersBounds votersRamp p"
  by (simp add: votersFill_def halfOpenBin_def votersBounds_def votersRamp_def)

lemma zohranFill_bins:
  "zohranFill p = (if p = 0 then ''#c51b7d'' else halfOpenBin zohranBounds zohranRamp p)"
  by (simp add: zohranFill_def halfOpenBin_def zohranBounds_def zohranRamp_def)

text \<open>
  Claim C6, as amended. The turnout and registration tables have six bins and the
  targeted-support table eight. In the turnout and registration tables every bin is
  closed at its lower boundary and open at its upper one, and the top bin is unbounded
  above. The targeted-support table is the same for every percentage other than 0:
  its lowest positive bin is the open interval from 0 to 2.5, and exactly 0 belongs to
  the bottom bin (no support). A turnout of 60 is in the top bin, a registration share
  of 30 in the bin from 30 to 40, a support of 2.5 in the bin from 2.5 to 5.
\<close>

theorem threshold_tables_bins:
  "turnoutFill p = halfOpenBin turnoutBounds turnoutRamp p \<and>
   votersFill p = halfOpenBin votersBounds votersRamp p \<and>
   zohranFill p = (if p = 0 then ''#c51b7d'' else halfOpenBin zohranBounds zohranRamp p) \<and>
   length turnoutRamp = 6 \<and> length votersRamp = 6 \<and> length zohranRamp = 8 \<and>
   turnoutFill 60 = ''#1a365d'' \<and> votersFill 30 = ''#ff7f0e'' \<and>
   zohranFill (5 / 2) = ''#f1b6da''"
proof -
  have "length turnoutRamp = 6" "length votersRamp = 6" "length zohranRamp = 8"
    by (simp_all add: turnoutRamp_def votersRamp_def zohranRamp_def)
  moreover have "turnoutFill 60 = ''#1a365d''" "votersFill 30 = ''#ff7f0e''"
    "zohranFill (5 / 2) = ''#f1b6da''"
    by (simp_all add: turnoutFill_def votersFill_def zohranFill_def)
  ultimately show ?thesis
    using turnoutFill_bins [of p] votersFill_bins [of p] zohranFill_bins [of p] by simp
qed

theorem threshold_tables_bins_witness:
  "zohranFill 3 = halfOpenBin zohranBounds zohranRamp 3 \<and>
   zohranFill 3 = ''#f1b6da'' \<and> zohranFill 0 = ''#c51b7d''"
proof -
  have "zohranFill 3 = ''#f1b6da''" "zohranFill 0 = ''#c51b7d''"
    by (simp_all add: zohranFill_def)
  with threshold_tables_bins [of 3] show ?thesis by simp
qed

text \<open>
  Claim C6 as stated fails for the targeted-support table: a support of exactly 0 is
  not in the bin whose lower boundary is 0.
\<close>

theorem zohran_zero_counterexample:
  "zohranFill 0 \<noteq> halfOpenBin zohranBounds zohranRamp 0"
  by (simp add: zohranFill_def halfOpenBin_def zohranBounds_def zohranRamp_def)

subsection \<open>The winner\<close>

lemma hd_insort_key:
  "hd (insort_key f x ys) = (if ys = [] \<or> f x \<le> f (hd ys) then x else hd ys)"
  by (cases ys) auto

lemma hd_sort_key_first_min:
  "xs \<noteq> [] \<Longrightarrow>
   \<exists>i < length xs. hd (sort_key f xs) = xs ! i \<and>
     (\<forall>j < length xs. f (xs ! i) \<le> f (xs ! j)) \<and> (\<forall>j < i. f (xs ! i) < f (xs ! j))"
proof (induction xs)
  case Nil
  then show ?case by simp
next
  case (Cons x xs)
  show ?case
  proof (cases "xs = []")
    case True
    then show ?thesis by simp
  next
    case False
    with Cons.IH obtain i where i: "i < length xs" "hd (sort_key f xs) = xs ! i"
      "\<forall>j < length xs. f (xs ! i) \<le> f (xs ! j)" "\<forall>j < i. f (xs ! i) < f (xs ! j)"
      by blast
    from False have ne: "sort_key f xs \<noteq> []"
      by (metis length_sort length_0_conv)
    show ?thesis
    proof (cases "f x \<le> f (xs ! i)")
      case True
      with i ne have h: "hd (sort_key f (x # xs)) = (x # xs) ! 0"
        by (simp add: hd_insort_key)
      have "\<forall>j < length (x # xs). f ((x # xs) ! 0) \<le> f ((x # xs) ! j)"
      proof (intro allI impI)
        fix j assume "j < length (x # xs)"
        then show "f ((x # xs) ! 0) \<le> f ((x # xs) ! j)"
          using True i(3) by (cases j) (auto intro: order_trans)
      qed
      with h show ?thesis by (intro exI [of _ 0]) simp
    next
      case False
      with i ne have h: "hd (sort_key f (x # xs)) = (x # xs) ! Suc i"
        by (simp add: hd_insort_key)
      have a: "\<forall>j < length (x # xs). f ((x # xs) ! Suc i) \<le> f ((x # xs) ! j)"
      proof (intro allI impI)
        fix j assume "j < length (x # xs)"
        then show "f ((x # xs) ! Suc i) \<le> f ((x # xs) ! j)"
          using False i(3) by (cases j) auto
      qed
      have b: "\<forall>j < Suc i. f ((x # xs) ! Suc i) < f ((x # xs) ! j)"
      proof (intro allI impI)
        fix j assume "j < Suc i"
        then show "f ((x # xs) ! Suc i) < f ((x # xs) ! j)"
          using False i(4) by (cases j) auto
      qed
      from h a b i(1) show ?thesis by (intro exI [of _ "Suc i"]) simp
    qed
  qed
qed

lemma first_max_unique:
  fixes cs :: "(string \<times> int) list"
  assumes "i < length cs" "\<forall>j < length cs. snd (cs ! j) \<le> snd (cs ! i)"
    "\<forall>j < i. snd (cs ! j) < snd (cs ! i)"
    and "k < length cs" "\<forall>j < length cs. snd (cs ! j) \<le> snd (cs ! k)"
    "\<forall>j < k. snd (cs ! j) < snd (cs ! k)"
  shows "i = k"
proof (rule ccontr)
  assume "i \<noteq> k"
  then consider "i < k" | "k < i" by linarith
  then show False
  proof cases
    case 1
    with assms(6) have "snd (cs ! i) < snd (cs ! k)" by blast
    moreover from assms(2,4) have "snd (cs ! k) \<le> snd (cs ! i)" by blast
    ultimately show False by simp
  next
    case 2
    with assms(3) have "snd (cs ! k) < snd (cs ! i)" by blast
    moreover from assms(5,1) have "snd (cs ! i) \<le> snd (cs ! k)" by blast
    ultimately show False by simp
  qed
qed

lemma candidates_hd:
  assumes "filter (\<lambda>e. fst e \<noteq> ''total_writeins'') (results r) = cs" "cs \<noteq> []"
  shows "\<exists>i < length cs. hd (candidates r) = cs ! i \<and>
     (\<forall>j < length cs. snd (cs ! j) \<le> snd (cs ! i)) \<and> (\<forall>j < i. snd (cs ! j) < snd (cs ! i))"
  using hd_sort_key_first_min [OF assms(2), of "\<lambda>e. - snd e"] assms(1)
  by (simp add: candidates_def)

lemma candidates_Nil:
  "candidates r = [] \<longleftrightarrow> filter (\<lambda>e. fst e \<noteq> ''total_writeins'') (results r) = []"
proof -
  have "candidates r = [] \<longleftrightarrow> length (candidates r) = 0"
    by simp
  also have "\<dots> \<longleftrightarrow> length (filter (\<lambda>e. fst e \<noteq> ''total_writeins'') (results r)) = 0"
    by (simp add: candidates_def)
  also have "\<dots> \<longleftrightarrow> filter (\<lambda>e. fst e \<noteq> ''total_writeins'') (results r) = []"
    by simp
  finally show ?thesis .
qed

lemma getWinningCandidate_hd:
  "getWinningCandidate (Some r) =
     (if candidates r = [] \<or> fst (hd (candidates r)) = [] then None
      else Some (fst (hd (candidates r))))"
  by (simp add: getWinningCandidate_def split: list.split)

lemma winner_in_results:
  assumes "getWinningCandidate (Some r) = Some w"
  shows "\<exists>v. map_of (results r) w = Some v"
proof -
  from assms have ne: "candidates r \<noteq> []" and w: "fst (hd (candidates r)) = w"
    by (auto simp: getWinningCandidate_hd split: if_splits)
  from ne have "hd (candidates r) \<in> set (candidates r)" by simp
  then have "hd (candidates r) \<in> set (results r)" by (simp add: candidates_def)
  with w have "w \<in> fst ` set (results r)" by force
  then have "map_of (results r) w \<noteq> None" by (simp add: map_of_eq_None_iff)
  then show ?thesis by blast
qed

text \<open>
  Claim C2, as amended. Take the entries of the candidate mapping without the write-in
  key, in the order in which the mapping enumerates them. The winner is null exactly
  when there is no such entry or the first entry with the maximal vote count has the
  empty string as its key. Otherwise the winner is the key of the first entry with the
  maximal vote count: no entry has more votes, and every earlier entry has strictly fewer.
\<close>

theorem winner_first_maximal:
  fixes r :: PrecinctResult
  defines "cs \<equiv> filter (\<lambda>e. fst e \<noteq> ''total_writeins'') (results r)"
  shows "(getWinningCandidate (Some r) = None \<longleftrightarrow>
            cs = [] \<or>
            (\<exists>i < length cs. fst (cs ! i) = [] \<and> (\<forall>j < length cs. snd (cs ! j) \<le> snd (cs ! i)) \<and>
               (\<forall>j < i. snd (cs ! j) < snd (cs ! i)))) \<and>
         (\<forall>k. getWinningCandidate (Some r) = Some k \<longrightarrow>
            k \<noteq> [] \<and>
            (\<exists>i < length cs. fst (cs ! i) = k \<and> (\<forall>j < length cs. snd (cs ! j) \<le> snd (cs ! i)) \<and>
               (\<forall>j < i. snd (cs ! j) < snd (cs ! i))))"
proof (cases "cs = []")
  case True
  then have "candidates r = []" by (simp add: candidates_Nil cs_def)
  with True show ?thesis by (simp add: getWinningCandidate_hd)
next
  case False
  then have ne: "candidates r \<noteq> []" by (simp add: candidates_Nil cs_def)
  from candidates_hd [OF _ False] obtain i where i: "i < length cs"
    "hd (candidates r) = cs ! i" "\<forall>j < length cs. snd (cs ! j) \<le> snd (cs ! i)"
    "\<forall>j < i. snd (cs ! j) < snd (cs ! i)"
    unfolding cs_def by blast
  have uniq: "k = i" if "k < length cs" "\<forall>j < length cs. snd (cs ! j) \<le> snd (cs ! k)"
    "\<forall>j < k. snd (cs ! j) < snd (cs ! k)" for k
    using first_max_unique [OF that i(1,3,4)] .
  have none: "getWinningCandidate (Some r) = None \<longleftrightarrow> fst (cs ! i) = []"
    using ne i(2) by (simp add: getWinningCandidate_hd)
  have some: "getWinningCandidate (Some r) = Some k \<longleftrightarrow> fst (cs ! i) = k \<and> k \<noteq> []" for k
    using ne i(2) by (auto simp: getWinningCandidate_hd)
  have ex_iff: "(\<exists>m < length cs. fst (cs ! m) = k \<and> (\<forall>j < length cs. snd (cs ! j) \<le> snd (cs ! m)) \<and>
               (\<forall>j < m. snd (cs ! j) < snd (cs ! m))) \<longleftrightarrow> fst (cs ! i) = k" for k
  proof
    assume "\<exists>m < length cs. fst (cs ! m) = k \<and> (\<forall>j < length cs. snd (cs ! j) \<le> snd (cs ! m)) \<and>
               (\<forall>j < m. snd (cs ! j) < snd (cs ! m))"
    then obtain m where m: "m < length cs" "fst (cs ! m) = k"
      "\<forall>j < length cs. snd (cs ! j) \<le> snd (cs ! m)" "\<forall>j < m. snd (cs ! j) < snd (cs ! m)"
      by blast
    from uniq [OF m(1,3,4)] m(2) show "fst (cs ! i) = k" by simp
  next
    assume "fst (cs ! i) = k"
    with i(1,3,4) show "\<exists>m < length cs. fst (cs ! m) = k \<and>
        (\<forall>j < length cs. snd (cs ! j) \<le> snd (cs ! m)) \<and> (\<forall>j < m. snd (cs ! j) < snd (cs ! m))"
      by (intro exI [of _ i]) simp
  qed
  show ?thesis
    unfolding ex_iff none some using False by simp
qed

theorem winner_first_maximal_witness:
  "getWinningCandidate (Some (examplePrecincts ! 1)) = Some ''cuomo-a'' \<and>
   (\<exists>i < length (filter (\<lambda>e. fst e \<noteq> ''total_writeins'') (results (examplePrecincts ! 1))).
      fst (filter (\<lambda>e. fst e \<noteq> ''total_writeins'') (results (examplePrecincts ! 1)) ! i) = ''cuomo-a'' \<and>
      (\<forall>j < length (filter (\<lambda>e. fst e \<noteq> ''total_writeins'') (results (examplePrecincts ! 1))).
         snd (filter (\<lambda>e. fst e \<noteq> ''total_writeins'') (results (examplePrecincts ! 1)) ! j)
           \<le> snd (filter (\<lambda>e. fst e \<noteq> ''total_writeins'') (results (examplePrecincts ! 1)) ! i)) \<and>
      (\<forall>j < i.
         snd (filter (\<lambda>e. fst e \<noteq> ''total_writeins'') (results (examplePrecincts ! 1)) ! j)
           < snd (filter (\<lambda>e. fst e \<noteq> ''total_writeins'') (results (examplePrecincts ! 1)) ! i))) \<and>
   getWinningCandidate (Some (examplePrecincts ! 0)) = None \<and>
   filter (\<lambda>e. fst e \<noteq> ''total_writeins'') (results (examplePrecincts ! 0)) = []"
proof -
  have w: "getWinningCandidate (Some (examplePrecincts ! 1)) = Some ''cuomo-a''"
    by (simp add: examplePrecincts_def getWinningCandidate_def candidates_def)
  have e: "filter (\<lambda>e. fst e \<noteq> ''total_writeins'') (results (examplePrecincts ! 0)) = []"
    by (simp add: examplePrecincts_def)
  from winner_first_maximal [of "examplePrecincts ! 0"] e
  have n: "getWinningCandidate (Some (examplePrecincts ! 0)) = None"
    by simp
  from winner_first_maximal [of "examplePrecincts ! 1"] w n e show ?thesis
    by simp
qed

text \<open>
  Claim C2 as stated fails when the leading key is the empty string: the mapping without
  the write-in key is not empty, and the winner is null.
\<close>

theorem winner_empty_key_counterexample:
  "getWinningCandidate (Some \<lparr>item_id = ''1'', votes = 3, results = [([], 3)]\<rparr>) = None \<and>
   filter (\<lambda>e. fst e \<noteq> ''total_writeins'')
     (results \<lparr>item_id = ''1'', votes = 3, results = [([], 3)]\<rparr>) \<noteq> []"
  by (simp add: getWinningCandidate_def candidates_def)

subsection \<open>The results view\<close>

text \<open>
  Claim C5, as amended. When the election record is present and
  \<open>getWinningCandidate\<close> returns a winner whose key is not a name inherited from
  \<open>Object.prototype\<close>, the fill is the base colour of the winner (the fallback
  \<open>#cccccc\<close> outside the table) shaded by one of five tiers of the win percentage: below
  40 lightened by 0.4, from 40 to below 50 lightened by 0.2, from 50 to below 60 the base
  colour, from 60 to below 80 darkened by 0.2, from 80 on darkened by 0.3. A win
  percentage of exactly 50 gives the base colour.
\<close>

theorem results_view_tiers:
  assumes "readElectDist f = Inr (Some d)"
    and "getPrecinctResults precincts d = Some r"
    and "getWinningCandidate (Some r) = Some w"
    and "w \<notin> set objectPrototypeKeys"
  shows "\<exists>p c. winPercentage r w = Some p \<and> baseColorOf w = Str c \<and>
     fillOf (stylePrecinctByResults precincts f) =
       Inr (Str (if p < 40 then lightenColor c (fl (4 / 10))
                 else if p < 50 then lightenColor c (fl (2 / 10))
                 else if p < 60 then c
                 else if p < 80 then darkenColor c (fl (2 / 10))
                 else darkenColor c (fl (3 / 10)))) \<and>
     (p = 50 \<longrightarrow> fillOf (stylePrecinctByResults precincts f) = Inr (Str c))"
proof -
  from winner_in_results [OF assms(3)] obtain v where v: "map_of (results r) w = Some v"
    by blast
  then have "\<exists>p. winPercentage r w = Some p"
    by (simp add: winPercentage_def)
  then obtain p where p: "winPercentage r w = Some p"
    by blast
  from baseColorOf_own [OF assms(4)] obtain c where c: "baseColorOf w = Str c"
    by blast
  have fill: "fillOf (stylePrecinctByResults precincts f) =
      map_sum id id (resultsFill (Str c) (Some p))"
    using assms(1,2,3) p c
    by (simp add: stylePrecinctByResults_def callGetPrecinctResults_def fillOf_def
        split: sum.split)
  have tiers: "resultsFill (Str c) (Some p) =
      Inr (Str (if p < 40 then lightenColor c (fl (4 / 10))
                else if p < 50 then lightenColor c (fl (2 / 10))
                else if p < 60 then c
                else if p < 80 then darkenColor c (fl (2 / 10))
                else darkenColor c (fl (3 / 10))))"
    by (auto simp: resultsFill_def atLeast_num_def darken_def lighten_def)
  show ?thesis
    using p c fill tiers by (intro exI [of _ p] exI [of _ c]) simp
qed

lemma cuomo_darkened: "darkenColor ''#1f77b4'' (fl (3 / 10)) = ''#15537d''"
proof -
  have ch: "\<lfloor>fmul 31 (3152519739159347 / 4503599627370496)\<rfloor> = 21"
    "\<lfloor>fmul 119 (3152519739159347 / 4503599627370496)\<rfloor> = 83"
    "\<lfloor>fmul 180 (3152519739159347 / 4503599627370496)\<rfloor> = 125"
    by (simp_all add: fl_eval)
  show ?thesis
    by (simp add: darkenColor_def channelString_def parseHexByte_def hexDigit_def substr_def
        darken_amounts ch)
       (simp add: hex2_def hexadecimal.simps digitChar_def)
qed

theorem results_view_tiers_witness:
  "readElectDist (precinctFeature 7) = Inr (Some 7) \<and>
   getPrecinctResults examplePrecincts 7 = Some (examplePrecincts ! 1) \<and>
   getWinningCandidate (Some (examplePrecincts ! 1)) = Some ''cuomo-a'' \<and>
   ''cuomo-a'' \<notin> set objectPrototypeKeys \<and>
   winPercentage (examplePrecincts ! 1) ''cuomo-a'' = Some 50 \<and>
   fillOf (stylePrecinctByResults examplePrecincts (precinctFeature 7)) = Inr (Str ''#1f77b4'') \<and>
   winPercentage (examplePrecincts ! 4) ''cuomo-a'' = Some 90 \<and>
   fillOf (stylePrecinctByResults examplePrecincts (precinctFeature 11)) = Inr (Str ''#15537d'')"
proof -
  have found: "getPrecinctResults examplePrecincts 7 = Some (examplePrecincts ! 1)"
    "getPrecinctResults examplePrecincts 11 = Some (examplePrecincts ! 4)"
    by (simp_all add: example_join) (simp_all add: examplePrecincts_def)
  have w: "getWinningCandidate (Some (examplePrecincts ! 1)) = Some ''cuomo-a''"
    "getWinningCandidate (Some (examplePrecincts ! 4)) = Some ''cuomo-a''"
    by (simp_all add: examplePrecincts_def getWinningCandidate_def candidates_def)
  have own: "''cuomo-a'' \<notin> set objectPrototypeKeys"
    by (simp add: objectPrototypeKeys_def)
  have p: "winPercentage (examplePrecincts ! 1) ''cuomo-a'' = Some 50"
    "winPercentage (examplePrecincts ! 4) ''cuomo-a'' = Some 90"
    by (simp_all add: examplePrecincts_def winPercentage_def fl_eval)
  have b: "baseColorOf ''cuomo-a'' = Str ''#1f77b4''"
    by (simp add: baseColorOf_def candidateBaseColors_def)
  note rd = readElectDist_precinctFeature
  from results_view_tiers [OF rd [of 7] found(1) w(1) own] p(1) b
  have a: "fillOf (stylePrecinctByResults examplePrecincts (precinctFeature 7))
      = Inr (Str ''#1f77b4'')"
    by auto
  from results_view_tiers [OF rd [of 11] found(2) w(2) own] p(2) b
  have c: "fillOf (stylePrecinctByResults examplePrecincts (precinctFeature 11))
      = Inr (Str ''#15537d'')"
    by (auto simp: cuomo_darkened)
  from rd [of 7] found(1) w(1) own p a c show ?thesis by simp
qed

lemma fallback_darkened: "darkenColor ''#cccccc'' (fl (3 / 10)) = ''#8e8e8e''"
proof -
  have ch: "\<lfloor>fmul 204 (3152519739159347 / 4503599627370496)\<rfloor> = 142"
    by (simp add: fl_eval)
  show ?thesis
    by (simp add: darkenColor_def channelString_def parseHexByte_def hexDigit_def substr_def
        darken_amounts ch)
       (simp add: hex2_def hexadecimal.simps digitChar_def)
qed

text \<open>
  Claim C5 as stated fails for a present record whose candidate mapping is not empty but
  yields no winner: with the empty string as the only key and all votes on it, the fill
  is the no-data colour and not the darkened base colour of the top tier.
\<close>

theorem results_empty_key_counterexample:
  "getPrecinctResults [\<lparr>item_id = ''1'', votes = 3, results = [([], 3)]\<rparr>] 1
     = Some \<lparr>item_id = ''1'', votes = 3, results = [([], 3)]\<rparr> \<and>
   filter (\<lambda>e. fst e \<noteq> ''total_writeins'')
     (results \<lparr>item_id = ''1'', votes = 3, results = [([], 3)]\<rparr>) \<noteq> [] \<and>
   winPercentage \<lparr>item_id = ''1'', votes = 3, results = [([], 3)]\<rparr> [] = Some 100 \<and>
   baseColorOf [] = Str ''#cccccc'' \<and>
   fillOf (stylePrecinctByResults [\<lparr>item_id = ''1'', votes = 3, results = [([], 3)]\<rparr>]
     (precinctFeature 1)) \<noteq> Inr (Str (darkenColor ''#cccccc'' (fl (3 / 10))))"
proof -
  have p: "winPercentage \<lparr>item_id = ''1'', votes = 3, results = [([], 3)]\<rparr> [] = Some 100"
    by (simp add: winPercentage_def fl_eval)
  have b: "baseColorOf [] = Str ''#cccccc''"
    by (simp add: baseColorOf_def candidateBaseColors_def objectPrototypeKeys_def)
  show ?thesis
    by (simp add: p b getPrecinctResults_def numberToString_digit stylePrecinctByResults_def
        getWinningCandidate_def candidates_def fillOf_def readElectDist_precinctFeature
        callGetPrecinctResults_def fallback_darkened)
qed

subsection \<open>The Gen-Z share\<close>

lemma bracketCount_absent: "name \<notin> fst ` set ags \<Longrightarrow> bracketCount ags name = 0"
  by (simp add: bracketCount_def map_of_eq_None_iff [THEN iffD2])

lemma bracketCount_Cons:
  "k \<notin> fst ` set ags \<Longrightarrow>
   bracketCount ((k, d) # ags) name =
     (if name = k then (case d of Some c \<Rightarrow> (if c > 0 then of_int c else 0) | None \<Rightarrow> 0)
      else bracketCount ags name)"
  by (simp add: bracketCount_def split: option.split)

lemma weightedSum_Cons:
  assumes "k \<notin> fst ` set ags"
  shows "exactStep (k, d) acc + weightedSum ags = acc + weightedSum ((k, d) # ags)"
proof -
  have z: "bracketCount ags k = 0" using assms by (rule bracketCount_absent)
  show ?thesis
    using z
    by (auto simp: weightedSum_def bracketCount_Cons [OF assms] exactStep_def
        split: option.split)
qed

lemma fold_exactStep:
  "distinct (map fst ags) \<Longrightarrow> fold exactStep ags acc = acc + weightedSum ags"
proof (induction ags arbitrary: acc)
  case Nil
  then show ?case by (simp add: weightedSum_def bracketCount_def)
next
  case (Cons e ags)
  obtain k d where e: "e = (k, d)" by (cases e)
  from Cons.prems e have k: "k \<notin> fst ` set ags" and dist: "distinct (map fst ags)"
    by auto
  have "fold exactStep (e # ags) acc = exactStep (k, d) acc + weightedSum ags"
    using Cons.IH [OF dist] e by simp
  also have "\<dots> = acc + weightedSum ((k, d) # ags)"
    by (rule weightedSum_Cons [OF k])
  finally show ?case using e by simp
qed

lemma unitRoundoff_range: "0 < unitRoundoff" "unitRoundoff < 1"
  by (simp_all add: unitRoundoff_def)

lemma widen_lower:
  assumes "0 \<le> a" "i \<le> j"
  shows "a * (1 - unitRoundoff) ^ j \<le> a * (1 - unitRoundoff) ^ i"
proof -
  have "(1 - unitRoundoff) ^ j \<le> (1 - unitRoundoff) ^ i"
    using assms(2) unitRoundoff_range by (intro power_decreasing) simp_all
  then show ?thesis using assms(1) by (rule mult_left_mono)
qed

lemma widen_upper:
  assumes "0 \<le> a" "i \<le> j"
  shows "a * (1 + unitRoundoff) ^ i \<le> a * (1 + unitRoundoff) ^ j"
proof -
  have "(1 + unitRoundoff) ^ i \<le> (1 + unitRoundoff) ^ j"
    using assms(2) unitRoundoff_range by (intro power_increasing) simp_all
  then show ?thesis using assms(1) by (rule mult_left_mono)
qed

lemma round_step:
  assumes "0 \<le> x" "a * (1 - unitRoundoff) ^ j \<le> x" "x \<le> a * (1 + unitRoundoff) ^ j"
  shows "a * (1 - unitRoundoff) ^ Suc j \<le> fl x" "fl x \<le> a * (1 + unitRoundoff) ^ Suc j"
proof -
  have u: "0 \<le> 1 - unitRoundoff" "0 \<le> 1 + unitRoundoff"
    using unitRoundoff_range by simp_all
  have lo: "x * (1 - unitRoundoff) \<le> fl x" and hi: "fl x \<le> x * (1 + unitRoundoff)"
    using fl_between [of x] assms(1) by (cases "x = 0"; simp)+
  have "a * (1 - unitRoundoff) ^ Suc j = a * (1 - unitRoundoff) ^ j * (1 - unitRoundoff)"
    by simp
  also have "\<dots> \<le> x * (1 - unitRoundoff)"
    using assms(2) u(1) by (rule mult_right_mono)
  finally show "a * (1 - unitRoundoff) ^ Suc j \<le> fl x" using lo by simp
  have "x * (1 + unitRoundoff) \<le> a * (1 + unitRoundoff) ^ j * (1 + unitRoundoff)"
    using assms(3) u(2) by (rule mult_right_mono)
  also have "\<dots> = a * (1 + unitRoundoff) ^ Suc j" by simp
  finally show "fl x \<le> a * (1 + unitRoundoff) ^ Suc j" using hi by simp
qed

text \<open>
  The term that one round adds: the count itself, or the rounded product of the count
  with the rounded weight, which is within two roundings of the exact product.
\<close>

lemma weighted_term:
  assumes "0 < c" "0 < w"
  shows "of_int c * w * (1 - unitRoundoff) ^ 2 \<le> fmul (of_int c) (fl w)"
    "fmul (of_int c) (fl w) \<le> of_int c * w * (1 + unitRoundoff) ^ 2"
proof -
  define a :: rat where "a = of_int c * w"
  have c: "0 < (of_int c :: rat)" using assms(1) by simp
  have a: "0 < a" using c assms(2) by (simp add: a_def)
  from fl_between [OF assms(2)] c
  have "of_int c * (w * (1 - unitRoundoff)) \<le> of_int c * fl w"
    "of_int c * fl w \<le> of_int c * (w * (1 + unitRoundoff))"
    by (simp_all add: mult_left_mono)
  then have b: "a * (1 - unitRoundoff) ^ 1 \<le> of_int c * fl w"
    "of_int c * fl w \<le> a * (1 + unitRoundoff) ^ 1"
    by (simp_all add: a_def mult.assoc)
  have p: "0 \<le> of_int c * fl w"
    using c fl_pos [OF assms(2)] by simp
  from round_step [OF p b]
  show "of_int c * w * (1 - unitRoundoff) ^ 2 \<le> fmul (of_int c) (fl w)"
    "fmul (of_int c) (fl w) \<le> of_int c * w * (1 + unitRoundoff) ^ 2"
    by (simp_all add: fmul_def a_def numeral_2_eq_2)
qed

lemma plain_term:
  assumes "0 < c"
  shows "of_int c * (1 - unitRoundoff) ^ 2 \<le> (of_int c :: rat)"
    "(of_int c :: rat) \<le> of_int c * (1 + unitRoundoff) ^ 2"
proof -
  have c: "0 \<le> (of_int c :: rat)" using assms by simp
  from widen_lower [OF c, of 0 2] show "of_int c * (1 - unitRoundoff) ^ 2 \<le> (of_int c :: rat)"
    by simp
  from widen_upper [OF c, of 0 2] show "(of_int c :: rat) \<le> of_int c * (1 + unitRoundoff) ^ 2"
    by simp
qed

lemma add_step:
  assumes "0 \<le> s" "0 < t" "2 \<le> j"
    and "s * (1 - unitRoundoff) ^ j \<le> acc" "acc \<le> s * (1 + unitRoundoff) ^ j"
    and "t * (1 - unitRoundoff) ^ 2 \<le> x" "x \<le> t * (1 + unitRoundoff) ^ 2"
  shows "(s + t) * (1 - unitRoundoff) ^ Suc j \<le> fadd acc x"
    "fadd acc x \<le> (s + t) * (1 + unitRoundoff) ^ Suc j"
proof -
  have t: "0 \<le> t" using assms(2) by simp
  have u: "0 \<le> (1 - unitRoundoff) ^ j" "0 \<le> (1 - unitRoundoff) ^ 2"
    using unitRoundoff_range by simp_all
  have acc0: "0 \<le> acc"
    using assms(1,4) u(1) by (meson mult_nonneg_nonneg order_trans)
  have x0: "0 \<le> x"
    using t assms(6) u(2) by (meson mult_nonneg_nonneg order_trans)
  have lo: "(s + t) * (1 - unitRoundoff) ^ j \<le> acc + x"
    using assms(4,6) widen_lower [OF t assms(3)] by (simp add: algebra_simps)
  have hi: "acc + x \<le> (s + t) * (1 + unitRoundoff) ^ j"
    using assms(5,7) widen_upper [OF t assms(3)] by (simp add: algebra_simps)
  have p: "0 \<le> acc + x" using acc0 x0 by simp
  from round_step [OF p lo hi]
  show "(s + t) * (1 - unitRoundoff) ^ Suc j \<le> fadd acc x"
    "fadd acc x \<le> (s + t) * (1 + unitRoundoff) ^ Suc j"
    by (simp_all add: fadd_def)
qed

lemma genZStep_bounds:
  assumes "0 \<le> s" "2 \<le> j"
    and "s * (1 - unitRoundoff) ^ j \<le> acc" "acc \<le> s * (1 + unitRoundoff) ^ j"
  shows "0 \<le> exactStep e s"
    "exactStep e s * (1 - unitRoundoff) ^ Suc j \<le> genZStep e acc"
    "genZStep e acc \<le> exactStep e s * (1 + unitRoundoff) ^ Suc j"
proof -
  have keep: "s * (1 - unitRoundoff) ^ Suc j \<le> acc" "acc \<le> s * (1 + unitRoundoff) ^ Suc j"
    using widen_lower [OF assms(1), of j "Suc j"] widen_upper [OF assms(1), of j "Suc j"]
      assms(3,4) by simp_all
  consider (none) "snd e = None" | (nonpos) c where "snd e = Some c" "\<not> 0 < c"
    | (pos) c where "snd e = Some c" "0 < c"
    by (cases "snd e") auto
  then have "0 \<le> exactStep e s \<and>
    exactStep e s * (1 - unitRoundoff) ^ Suc j \<le> genZStep e acc \<and>
    genZStep e acc \<le> exactStep e s * (1 + unitRoundoff) ^ Suc j"
  proof cases
    case none
    then show ?thesis using keep assms(1) by (simp add: exactStep_def genZStep_def)
  next
    case nonpos
    then show ?thesis using keep assms(1) by (simp add: exactStep_def genZStep_def)
  next
    case pos
    have c: "0 < (of_int c :: rat)" using pos(2) by simp
    note w8 = weighted_term [OF pos(2), of "8 / 10"]
    note w4 = weighted_term [OF pos(2), of "4 / 10"]
    note pl = plain_term [OF pos(2)]
    have t8: "0 < (of_int c :: rat) * (8 / 10)" and t4: "0 < (of_int c :: rat) * (4 / 10)"
      using c by simp_all
    note a8 = add_step [OF assms(1) t8 assms(2,3,4)]
    note a4 = add_step [OF assms(1) t4 assms(2,3,4)]
    note a1 = add_step [OF assms(1) c assms(2,3,4) pl]
    show ?thesis
    proof (cases "fst e = ''10 to 14 years''")
      case True
      with pos a8 [OF w8] assms(1) t8 show ?thesis
        by (simp add: exactStep_def genZStep_def)
    next
      case n1: False
      show ?thesis
      proof (cases "fst e = ''15 to 19 years'' \<or> fst e = ''20 to 24 years''")
        case True
        with n1 pos a1 assms(1) c show ?thesis
          by (auto simp: exactStep_def genZStep_def)
      next
        case n2: False
        show ?thesis
        proof (cases "fst e = ''25 to 29 years''")
          case True
          with n1 n2 pos a4 [OF w4] assms(1) t4 show ?thesis
            by (simp add: exactStep_def genZStep_def)
        next
          case False
          with n1 n2 pos keep assms(1) show ?thesis
            by (simp add: exactStep_def genZStep_def)
        qed
      qed
    qed
  qed
  then show "0 \<le> exactStep e s"
    "exactStep e s * (1 - unitRoundoff) ^ Suc j \<le> genZStep e acc"
    "genZStep e acc \<le> exactStep e s * (1 + unitRoundoff) ^ Suc j"
    by simp_all
qed

lemma genZStep_other:
  assumes "fst e \<notin> set genZBrackets"
  shows "genZStep e acc = acc" "exactStep e s = s"
  using assms by (simp_all add: genZBrackets_def genZStep_def exactStep_def split: option.split)

lemma fold_genZStep_bounds:
  assumes "0 \<le> s" "2 \<le> j"
    and "s * (1 - unitRoundoff) ^ j \<le> acc" "acc \<le> s * (1 + unitRoundoff) ^ j"
  shows "0 \<le> fold exactStep ags s \<and>
    fold exactStep ags s *
      (1 - unitRoundoff) ^ (j + length (filter (\<lambda>e. fst e \<in> set genZBrackets) ags))
      \<le> fold genZStep ags acc \<and>
    fold genZStep ags acc \<le>
      fold exactStep ags s *
        (1 + unitRoundoff) ^ (j + length (filter (\<lambda>e. fst e \<in> set genZBrackets) ags))"
  using assms
proof (induction ags arbitrary: s acc j)
  case Nil
  then show ?case by simp
next
  case (Cons e ags)
  show ?case
  proof (cases "fst e \<in> set genZBrackets")
    case True
    note st = genZStep_bounds [OF Cons.prems, of e]
    from Cons.prems(2) have j: "2 \<le> Suc j" by simp
    from Cons.IH [OF st(1) j st(2,3)] True show ?thesis by simp
  next
    case False
    from Cons.IH [OF Cons.prems] False show ?thesis
      by (simp add: genZStep_other [OF False])
  qed
qed

lemma bracket_entries_le_4:
  assumes "distinct (map fst ags)"
  shows "length (filter (\<lambda>e. fst e \<in> set genZBrackets) ags) \<le> 4"
proof -
  define xs where "xs = filter (\<lambda>e. fst e \<in> set genZBrackets) ags"
  have d: "distinct (map fst xs)"
    unfolding xs_def using assms by (rule distinct_map_filter)
  have sub: "set (map fst xs) \<subseteq> set genZBrackets"
    by (auto simp: xs_def)
  have "length xs = length (map fst xs)" by simp
  also have "\<dots> = card (set (map fst xs))" using d by (simp only: distinct_card)
  also have "\<dots> \<le> card (set genZBrackets)" using sub by (intro card_mono) simp_all
  also have "\<dots> \<le> length genZBrackets" by (rule card_length)
  also have "\<dots> = 4" by (simp add: genZBrackets_def)
  finally show ?thesis by (simp add: xs_def)
qed

lemma genZCount_bounds:
  assumes "distinct (map fst ags)"
  shows "0 \<le> weightedSum ags"
    "weightedSum ags * (1 - unitRoundoff) ^ 6 \<le> genZCount ags"
    "genZCount ags \<le> weightedSum ags * (1 + unitRoundoff) ^ 6"
proof -
  define m where "m = length (filter (\<lambda>e. fst e \<in> set genZBrackets) ags)"
  have w: "fold exactStep ags 0 = weightedSum ags"
    using fold_exactStep [OF assms, of 0] by simp
  from fold_genZStep_bounds [of 0 2 0 ags]
  have b: "0 \<le> weightedSum ags"
    "weightedSum ags * (1 - unitRoundoff) ^ (2 + m) \<le> genZCount ags"
    "genZCount ags \<le> weightedSum ags * (1 + unitRoundoff) ^ (2 + m)"
    by (simp_all add: w m_def genZCount_def)
  from bracket_entries_le_4 [OF assms] have m: "2 + m \<le> 6" by (simp add: m_def)
  show "0 \<le> weightedSum ags" by fact
  from widen_lower [OF b(1) m] b(2)
  show "weightedSum ags * (1 - unitRoundoff) ^ 6 \<le> genZCount ags" by simp
  from widen_upper [OF b(1) m] b(3)
  show "genZCount ags \<le> weightedSum ags * (1 + unitRoundoff) ^ 6" by simp
qed

lemma genZCount_zero_iff:
  assumes "distinct (map fst ags)"
  shows "genZCount ags = 0 \<longleftrightarrow> weightedSum ags = 0"
proof
  assume z: "genZCount ags = 0"
  show "weightedSum ags = 0"
  proof (rule ccontr)
    assume "weightedSum ags \<noteq> 0"
    with genZCount_bounds(1) [OF assms] have "0 < weightedSum ags" by simp
    moreover have "0 < (1 - unitRoundoff) ^ 6" using unitRoundoff_range by simp
    ultimately have "0 < weightedSum ags * (1 - unitRoundoff) ^ 6" by (rule mult_pos_pos)
    with genZCount_bounds(2) [OF assms] z show False by simp
  qed
next
  assume "weightedSum ags = 0"
  with genZCount_bounds(2,3) [OF assms] show "genZCount ags = 0" by simp
qed

lemma percentOf_bounds:
  assumes "0 < p" "0 \<le> w"
    and "w * (1 - unitRoundoff) ^ 6 \<le> g" "g \<le> w * (1 + unitRoundoff) ^ 6"
  shows "w / p * 100 * (1 - unitRoundoff) ^ 8 \<le> percentOf g p"
    "percentOf g p \<le> w / p * 100 * (1 + unitRoundoff) ^ 8"
proof -
  define ql where "ql = (1 - unitRoundoff) ^ Suc 6"
  define qh where "qh = (1 + unitRoundoff) ^ Suc 6"
  have u: "0 \<le> (1 - unitRoundoff) ^ 6" using unitRoundoff_range by simp
  from assms(2,3) u have g0: "0 \<le> g" by (meson mult_nonneg_nonneg order_trans)
  have x1: "0 \<le> g / p" using g0 assms(1) by simp
  have b1: "w / p * (1 - unitRoundoff) ^ 6 \<le> g / p" "g / p \<le> w / p * (1 + unitRoundoff) ^ 6"
    using assms(1,3,4) by (simp_all add: divide_right_mono)
  from round_step [OF x1 b1]
  have r1: "w / p * ql \<le> fl (g / p)" "fl (g / p) \<le> w / p * qh"
    unfolding ql_def qh_def by simp_all
  have x2: "0 \<le> fl (g / p) * 100" using fl_nonneg [OF x1] by simp
  have "w / p * 100 * ql = w / p * ql * 100" by simp
  also have "\<dots> \<le> fl (g / p) * 100" by (rule mult_right_mono [OF r1(1)]) simp
  finally have lo: "w / p * 100 * (1 - unitRoundoff) ^ Suc 6 \<le> fl (g / p) * 100"
    unfolding ql_def .
  have "fl (g / p) * 100 \<le> w / p * qh * 100" by (rule mult_right_mono [OF r1(2)]) simp
  also have "\<dots> = w / p * 100 * qh" by simp
  finally have hi: "fl (g / p) * 100 \<le> w / p * 100 * (1 + unitRoundoff) ^ Suc 6"
    unfolding qh_def .
  have e8: "Suc (Suc 6) = 8" by simp
  from round_step [OF x2 lo hi]
  show "w / p * 100 * (1 - unitRoundoff) ^ 8 \<le> percentOf g p"
    "percentOf g p \<le> w / p * 100 * (1 + unitRoundoff) ^ 8"
    unfolding e8 percentOf_def fmul_def fdiv_def by simp_all
qed

lemma example_share:
  "calculateGenZPercentage
     (Some [(''10 to 14 years'', Some 3), (''15 to 19 years'', Some 14),
            (''25 to 29 years'', Some 1), (''65 to 69 years'', None)]) 168
   = Some (5629499534213119 / 562949953421312)"
proof -
  have g: "genZCount [(''10 to 14 years'', Some 3), (''15 to 19 years'', Some 14),
      (''25 to 29 years'', Some 1), (''65 to 69 years'', None)]
    = 1182194902184755 / 70368744177664"
    by (simp add: genZCount_def genZStep_def fl_eval)
  have p: "percentOf (1182194902184755 / 70368744177664) 168
    = 5629499534213119 / 562949953421312"
    by (simp add: fl_eval)
  show ?thesis
    by (simp add: calculateGenZPercentage_def g p)
qed

text \<open>
  Claim C4, as amended. For the age groups of a tract (an object, so its bracket names
  are distinct) and a positive total population, the share is null exactly when the
  weighted sum 0.8 times the count of \<open>10 to 14 years\<close> plus the counts of
  \<open>15 to 19 years\<close> and \<open>20 to 24 years\<close> plus 0.4 times the count of \<open>25 to 29 years\<close>
  is 0. Otherwise the share is that sum divided by the total population and multiplied
  by 100 as double arithmetic computes it: it lies within eight roundings of the exact
  value, that is between the exact value times \<open>(1 - 2 ^ -53) ^ 8\<close> and the exact value
  times \<open>(1 + 2 ^ -53) ^ 8\<close>. The share is also null when the total population is 0 or
  absent and when the age groups are absent.
\<close>

theorem genZ_share_formula:
  assumes "distinct (map fst ags)" and "0 < totalPop"
  shows "(calculateGenZPercentage (Some ags) totalPop = None \<longleftrightarrow> weightedSum ags = 0) \<and>
         (\<forall>p. calculateGenZPercentage (Some ags) totalPop = Some p \<longrightarrow>
            weightedSum ags / of_int totalPop * 100 * (1 - unitRoundoff) ^ 8 \<le> p \<and>
            p \<le> weightedSum ags / of_int totalPop * 100 * (1 + unitRoundoff) ^ 8) \<and>
         calculateGenZPercentage (Some ags) 0 = None \<and>
         calculateGenZPercentage None totalPop = None \<and>
         tractGenZPercentage \<lparr>totalPopulation = None, ageGroups = Some ags\<rparr> = None"
proof -
  have pop: "0 < (of_int totalPop :: rat)" using assms(2) by simp
  note b = genZCount_bounds [OF assms(1)]
  note pb = percentOf_bounds [OF pop b]
  have none: "calculateGenZPercentage (Some ags) totalPop = None \<longleftrightarrow> weightedSum ags = 0"
    using assms(2) genZCount_zero_iff [OF assms(1)]
    by (simp add: calculateGenZPercentage_def)
  have some: "\<forall>p. calculateGenZPercentage (Some ags) totalPop = Some p \<longrightarrow>
      weightedSum ags / of_int totalPop * 100 * (1 - unitRoundoff) ^ 8 \<le> p \<and>
      p \<le> weightedSum ags / of_int totalPop * 100 * (1 + unitRoundoff) ^ 8"
    using pb by (auto simp: calculateGenZPercentage_def split: if_splits)
  have rest: "calculateGenZPercentage (Some ags) 0 = None"
    "calculateGenZPercentage None totalPop = None"
    "tractGenZPercentage \<lparr>totalPopulation = None, ageGroups = Some ags\<rparr> = None"
    by (simp_all add: calculateGenZPercentage_def tractGenZPercentage_def)
  from none some rest show ?thesis by (intro conjI)
qed

theorem genZ_share_formula_witness:
  "distinct (map fst [(''10 to 14 years'', Some 3), (''15 to 19 years'', Some (14::int)),
      (''25 to 29 years'', Some 1), (''65 to 69 years'', None)]) \<and>
   (0::int) < 168 \<and>
   weightedSum [(''10 to 14 years'', Some 3), (''15 to 19 years'', Some 14),
      (''25 to 29 years'', Some 1), (''65 to 69 years'', None)] / of_int 168 * 100 = 10 \<and>
   calculateGenZPercentage
     (Some [(''10 to 14 years'', Some 3), (''15 to 19 years'', Some 14),
            (''25 to 29 years'', Some 1), (''65 to 69 years'', None)]) 168
     = Some (5629499534213119 / 562949953421312) \<and>
   10 * (1 - unitRoundoff) ^ 8 \<le> 5629499534213119 / 562949953421312 \<and>
   5629499534213119 / 562949953421312 < (10::rat)"
proof -
  let ?ags = "[(''10 to 14 years'', Some 3), (''15 to 19 years'', Some (14::int)),
      (''25 to 29 years'', Some 1), (''65 to 69 years'', None)]"
  have d: "distinct (map fst ?ags)" by simp
  have pos: "(0::int) < 168" by simp
  have w: "weightedSum ?ags / of_int 168 * 100 = 10"
    by (simp add: weightedSum_def bracketCount_def)
  from genZ_share_formula [OF d pos] example_share
  have "weightedSum ?ags / of_int 168 * 100 * (1 - unitRoundoff) ^ 8
      \<le> 5629499534213119 / 562949953421312"
    by blast
  then have lo: "10 * (1 - unitRoundoff) ^ 8 \<le> 5629499534213119 / 562949953421312"
    by (simp only: w)
  from d pos w example_share lo show ?thesis by simp
qed

text \<open>
  Claim C4 as stated fails in two ways. A tract with a positive population and no
  resident in the four brackets has the share null, not 0. And for the counts 3, 14 and
  1 over a population of 168 the formula gives exactly 10, while the share computed in
  doubles is \<open>9.999999999999998\<close>, which \<open>styleCensusTract\<close> puts into the bin below 10.
\<close>

theorem genZ_share_counterexample:
  "(0::int) < 100 \<and>
   calculateGenZPercentage (Some [(''30 to 34 years'', Some 100)]) 100 = None \<and>
   (0::int) < 168 \<and>
   calculateGenZPercentage
     (Some [(''10 to 14 years'', Some 3), (''15 to 19 years'', Some 14),
            (''25 to 29 years'', Some 1), (''65 to 69 years'', None)]) 168
     \<noteq> Some (weightedSum [(''10 to 14 years'', Some 3), (''15 to 19 years'', Some 14),
            (''25 to 29 years'', Some 1), (''65 to 69 years'', None)] / of_int 168 * 100) \<and>
   fillColor (styleCensusTract
     \<lparr>totalPopulation = Some 168,
      ageGroups = Some [(''10 to 14 years'', Some 3), (''15 to 19 years'', Some 14),
            (''25 to 29 years'', Some 1), (''65 to 69 years'', None)]\<rparr> True)
     = Str ''#de77ae'' \<and>
   genZFill 10 = ''#f1b6da''"
proof -
  have a: "calculateGenZPercentage (Some [(''30 to 34 years'', Some 100)]) 100 = None"
    by (simp add: calculateGenZPercentage_def genZCount_def genZStep_def)
  have w: "weightedSum [(''10 to 14 years'', Some 3), (''15 to 19 years'', Some 14),
      (''25 to 29 years'', Some 1), (''65 to 69 years'', None)] / of_int 168 * 100 = 10"
    by (simp add: weightedSum_def bracketCount_def)
  have f: "genZFill (5629499534213119 / 562949953421312) = ''#de77ae''" "genZFill 10 = ''#f1b6da''"
    by (simp_all add: genZFill_def)
  from a w f show ?thesis
    by (simp add: example_share styleCensusTract_def)
qed

subsection \<open>Zero denominators\<close>

text \<open>
  Claim C1, as amended. For a registration record with total 0: the targeted-support
  view returns the no-data colour \<open>#cccccc\<close>, and the election section of the popup
  leaves out the targeted support and the overall turnout; the Democratic registration
  share, however, is the number 0, which the registration view puts into its lowest bin
  \<open>#d62728\<close>. The turnout view returns the no-data colour when the Democratic count is
  0, the win percentage is the number 0 when no votes were cast, and the Gen-Z share is
  null for a population of 0.
\<close>

theorem zero_total_metrics:
  "(readElectDist f = Inr (Some d) \<and> getVoterCounts (Some d) = Some voterData \<and>
    total_reg voterData = 0 \<longrightarrow>
      fillOf (stylePrecinctByZohranSupport precincts getVoterCounts f) = Inr (Str ''#cccccc'') \<and>
      popupZohranSupportPercentage r (Some voterData) = None \<and>
      popupTurnoutPercentage r (Some voterData) = None \<and>
      demPercentage voterData = 0 \<and>
      fillOf (stylePrecinctByVoters getVoterCounts f) = Inr (Str ''#d62728'')) \<and>
   (readElectDist f = Inr (Some d) \<and> getVoterCounts (Some d) = Some voterData \<and>
    democrats voterData = 0 \<longrightarrow>
      fillOf (stylePrecinctByTurnout precincts getVoterCounts f) = Inr (Str ''#cccccc'')) \<and>
   (votes r = 0 \<longrightarrow> winPercentage r w = Some 0) \<and>
   calculateGenZPercentage groups 0 = None"
  by (auto simp: stylePrecinctByZohranSupport_def popupZohranSupportPercentage_def
      popupTurnoutPercentage_def demPercentage_def stylePrecinctByVoters_def votersFill_def
      stylePrecinctByTurnout_def winPercentage_def calculateGenZPercentage_def fillOf_def
      callGetPrecinctResults_def split: option.split)

theorem zero_total_metrics_witness:
  "readElectDist (precinctFeature 9) = Inr (Some 9) \<and>
   exampleVoterCounts (Some 9) \<noteq> None \<and>
   map_option total_reg (exampleVoterCounts (Some 9)) = Some 0 \<and>
   fillOf (stylePrecinctByZohranSupport examplePrecincts exampleVoterCounts (precinctFeature 9))
     = Inr (Str ''#cccccc'') \<and>
   fillOf (stylePrecinctByVoters exampleVoterCounts (precinctFeature 9)) = Inr (Str ''#d62728'') \<and>
   fillOf (stylePrecinctByTurnout examplePrecincts exampleVoterCounts (precinctFeature 9))
     = Inr (Str ''#cccccc'')"
proof -
  let ?v = "\<lparr>district = 9, county = ''Kings'', democrats = 0, republicans = 0,
             conservatives = 0, working_families = 0, other = 0, blank = 0,
             total_reg = 0\<rparr>"
  have reg: "exampleVoterCounts (Some 9) = Some ?v"
    by (simp add: exampleVoterCounts_def)
  have zero: "total_reg ?v = 0" "democrats ?v = 0"
    by simp_all
  note rd = readElectDist_precinctFeature [of 9]
  note inst = zero_total_metrics
      [where getVoterCounts = exampleVoterCounts and f = "precinctFeature 9" and d = 9
         and voterData = ?v and precincts = examplePrecincts
         and r = "examplePrecincts ! 3" and w = "''mamdani-z''" and groups = None]
  from inst reg zero rd show ?thesis by simp
qed

text \<open>
  Claim C1 as stated fails in the registration view: with a registration total of 0 the
  fill is not the no-data colour.
\<close>

theorem zero_total_share_counterexample:
  "map_option total_reg (exampleVoterCounts (Some 9)) = Some 0 \<and>
   fillOf (stylePrecinctByVoters exampleVoterCounts (precinctFeature 9))
     \<noteq> Inr (Str ''#cccccc'')"
  by (simp add: exampleVoterCounts_def stylePrecinctByVoters_def demPercentage_def
      votersFill_def fillOf_def readElectDist_precinctFeature)

subsection \<open>Totality of the classification\<close>

lemma hexDigit_digitChar: "d < 16 \<Longrightarrow> hexDigit (digitChar d) \<noteq> None"
proof -
  assume "d < 16"
  then have "d = 0 \<or> d = 1 \<or> d = 2 \<or> d = 3 \<or> d = 4 \<or> d = 5 \<or> d = 6 \<or> d = 7 \<or> d = 8 \<or>
      d = 9 \<or> d = 10 \<or> d = 11 \<or> d = 12 \<or> d = 13 \<or> d = 14 \<or> d = 15"
    by arith
  then show ?thesis
    by (elim disjE) (simp_all add: digitChar_def hexDigit_def)
qed

lemma digit_range:
  "c \<in> set ''0123456789'' \<Longrightarrow> (of_char c :: nat) - 48 < 16"
  "c \<in> set ''abcdef'' \<Longrightarrow> (of_char c :: nat) - 87 < 16"
  "c \<in> set ''ABCDEF'' \<Longrightarrow> (of_char c :: nat) - 55 < 16"
  by auto

lemma hexDigit_less: "hexDigit c = Some x \<Longrightarrow> x < 16"
  unfolding hexDigit_def using digit_range [of c]
  by (simp split: if_splits)

lemma parseHexByte_less: "parseHexByte s = Some v \<Longrightarrow> v < 256"
  by (auto simp: parseHexByte_def split: list.splits option.splits dest!: hexDigit_less)

lemma parseHexByte_digits:
  "hexDigit a \<noteq> None \<Longrightarrow> hexDigit b \<noteq> None \<Longrightarrow> parseHexByte [a, b] \<noteq> None"
  by (auto simp: parseHexByte_def)

lemma hexadecimal_byte:
  assumes "n < 256"
  shows "hexadecimal n =
           (if n < 16 then [digitChar n] else [digitChar (n div 16), digitChar (n mod 16)])"
proof (cases "n < 16")
  case True
  then show ?thesis by (simp add: hexadecimal.simps [of n])
next
  case False
  from assms have "n div 16 < 16" by simp
  then have "hexadecimal (n div 16) = [digitChar (n div 16)]"
    by (simp add: hexadecimal.simps [of "n div 16"])
  with False show ?thesis by (simp add: hexadecimal.simps [of n])
qed

lemma hex2_digits:
  assumes "n < 256"
  shows "length (hex2 n) = 2 \<and> list_all (\<lambda>d. hexDigit d \<noteq> None) (hex2 n)"
proof (cases "n < 16")
  case True
  have z: "hexDigit CHR ''0'' \<noteq> None" by (simp add: hexDigit_def)
  from True have "hex2 n = [CHR ''0'', digitChar n]"
    by (simp add: hex2_def hexadecimal_byte)
  with z hexDigit_digitChar [OF True] show ?thesis by simp
next
  case False
  from assms have d: "n div 16 < 16" "n mod 16 < 16" by simp_all
  from False assms have "hex2 n = [digitChar (n div 16), digitChar (n mod 16)]"
    by (simp add: hex2_def hexadecimal_byte)
  with hexDigit_digitChar [OF d(1)] hexDigit_digitChar [OF d(2)] show ?thesis by simp
qed

lemma channelString_digits:
  assumes "hexDigit a \<noteq> None" "hexDigit b \<noteq> None" and "\<And>v. v < 256 \<Longrightarrow> f v < 256"
  shows "length (channelString f [a, b]) = 2 \<and>
         list_all (\<lambda>d. hexDigit d \<noteq> None) (channelString f [a, b])"
proof -
  from parseHexByte_digits [OF assms(1,2)] obtain v where v: "parseHexByte [a, b] = Some v"
    by blast
  from parseHexByte_less [OF v] assms(3) have "nat (f v) < 256" by fastforce
  from hex2_digits [OF this] v show ?thesis by (simp add: channelString_def)
qed

lemma six_chars:
  assumes "length cs = 6"
  obtains c1 c2 c3 c4 c5 c6 where "cs = [c1, c2, c3, c4, c5, c6]"
proof -
  from assms have "\<exists>c1 c2 c3 c4 c5 c6. cs = [c1, c2, c3, c4, c5, c6]"
    by (simp add: numeral_eq_Suc length_Suc_conv) blast
  with that show thesis by blast
qed

lemma shade_digits:
  assumes "isHexColor c" and "\<And>v. v < 256 \<Longrightarrow> f v < 256"
  shows "isHexColor (CHR ''#'' # channelString f (substr (removeHash c) 0 2)
           @ channelString f (substr (removeHash c) 2 2)
           @ channelString f (substr (removeHash c) 4 2))"
proof -
  from assms(1) obtain cs where c: "c = CHR ''#'' # cs" and len: "length cs = 6"
    and ok: "list_all (\<lambda>d. hexDigit d \<noteq> None) cs"
    by (auto simp: isHexColor_def split: list.splits)
  from len obtain c1 c2 c3 c4 c5 c6 where cs: "cs = [c1, c2, c3, c4, c5, c6]"
    by (rule six_chars)
  from ok cs have d: "hexDigit c1 \<noteq> None" "hexDigit c2 \<noteq> None" "hexDigit c3 \<noteq> None"
    "hexDigit c4 \<noteq> None" "hexDigit c5 \<noteq> None" "hexDigit c6 \<noteq> None"
    by simp_all
  have s: "substr (removeHash c) 0 2 = [c1, c2]" "substr (removeHash c) 2 2 = [c3, c4]"
    "substr (removeHash c) 4 2 = [c5, c6]"
    using c cs by (simp_all add: substr_def)
  note a = channelString_digits [OF d(1,2) assms(2)]
    and b = channelString_digits [OF d(3,4) assms(2)]
    and e = channelString_digits [OF d(5,6) assms(2)]
  from a b e show ?thesis
    by (simp add: isHexColor_def s)
qed

lemma fl_unit_interval:
  assumes "0 \<le> x" "x \<le> 1"
  shows "0 \<le> fl x" "fl x \<le> 1"
proof -
  show "0 \<le> fl x" using assms(1) by (rule fl_nonneg)
  show "fl x \<le> 1"
  proof (cases "x = 0")
    case True
    then show ?thesis by simp
  next
    case False
    with assms(1) have "0 < x" by simp
    from fl_le_nat [OF this, of 1] assms(2) show ?thesis by simp
  qed
qed

lemma nonneg_neq_pos: "0 \<le> (x::rat) \<Longrightarrow> x \<noteq> 0 \<Longrightarrow> 0 < x"
  by simp

lemma darken_channel:
  assumes "0 \<le> amount" "amount \<le> 1" "v < 256"
  shows "max 0 \<lfloor>fmul (of_nat v) (fsub 1 amount)\<rfloor> < 256"
proof -
  define k where "k = fsub 1 amount"
  have k: "0 \<le> k" "k \<le> 1"
    unfolding k_def fsub_def using assms(1,2) by (simp_all add: fl_unit_interval)
  have x0: "0 \<le> of_nat v * k" using k(1) by simp
  have xv: "of_nat v * k \<le> of_nat v"
    using k(2) by (simp add: mult_left_le)
  have "fl (of_nat v * k) \<le> of_nat v"
  proof (cases "of_nat v * k = 0")
    case True
    then have "fl (of_nat v * k) = 0" by (simp only: fl_zero)
    then show ?thesis by simp
  next
    case False
    with x0 have pos: "0 < of_nat v * k" by (rule nonneg_neq_pos)
    from assms(3) have "v < 2 ^ 53" by simp
    from fl_le_nat [OF pos xv this] show ?thesis .
  qed
  then have "\<lfloor>fl (of_nat v * k)\<rfloor> \<le> \<lfloor>of_nat v :: rat\<rfloor>"
    by (rule floor_mono)
  then have "\<lfloor>fl (of_nat v * k)\<rfloor> \<le> int v" by simp
  with assms(3) have "\<lfloor>fl (of_nat v * k)\<rfloor> < 256" by linarith
  then show ?thesis by (simp add: max_def fmul_def k_def)
qed

lemma darkenColor_hex:
  assumes "isHexColor c" "0 \<le> amount" "amount \<le> 1"
  shows "isHexColor (darkenColor c amount)"
  using shade_digits [OF assms(1), of "\<lambda>v. max 0 \<lfloor>fmul (of_nat v) (fsub 1 amount)\<rfloor>",
      OF darken_channel [OF assms(2,3)]]
  by (simp add: darkenColor_def Let_def)

lemma lightenColor_hex:
  assumes "isHexColor c"
  shows "isHexColor (lightenColor c amount)"
proof -
  have "min 255 \<lfloor>fadd (of_nat v) (fmul (fsub 255 (of_nat v)) amount)\<rfloor> < 256" for v :: nat
    by simp
  from shade_digits [OF assms(1),
      of "\<lambda>v. min 255 \<lfloor>fadd (of_nat v) (fmul (fsub 255 (of_nat v)) amount)\<rfloor>", OF this]
  show ?thesis by (simp add: lightenColor_def Let_def)
qed

lemma table_colors_hex: "map_of candidateBaseColors w = Some c \<Longrightarrow> isHexColor c"
  by (auto simp: candidateBaseColors_def isHexColor_def hexDigit_def split: if_splits)

lemma fills_hex:
  "isHexColor (turnoutFill p)" "isHexColor (votersFill p)" "isHexColor (zohranFill p)"
  "isHexColor (genZFill p)" "isHexColor ''#cccccc''"
  by (simp_all add: turnoutFill_def votersFill_def zohranFill_def genZFill_def isHexColor_def
      hexDigit_def)

lemma baseColorOf_hex: "baseColorOf w = Str c \<Longrightarrow> isHexColor c"
  by (auto simp: baseColorOf_def fills_hex table_colors_hex split: option.splits if_splits)

lemma resultsFill_hex:
  assumes "isHexColor c"
  shows "\<exists>c'. resultsFill (Str c) p = Inr (Str c') \<and> isHexColor c'"
  using assms
  by (simp add: resultsFill_def darken_def lighten_def darkenColor_hex lightenColor_hex
      fl_unit_interval)

lemma stylePrecinctByResults_hex:
  assumes "readElectDist f = Inr (Some d)"
    and "\<forall>w. getWinningCandidate (getPrecinctResults precincts d) = Some w \<longrightarrow>
           w \<notin> set objectPrototypeKeys"
  shows "\<exists>c. fillOf (stylePrecinctByResults precincts f) = Inr (Str c) \<and> isHexColor c"
proof (cases "getPrecinctResults precincts d")
  case None
  with assms(1) show ?thesis
    by (simp add: stylePrecinctByResults_def callGetPrecinctResults_def fillOf_def
        getWinningCandidate_def fills_hex)
next
  case (Some r)
  show ?thesis
  proof (cases "getWinningCandidate (Some r)")
    case None
    with Some assms(1) show ?thesis
      by (simp add: stylePrecinctByResults_def callGetPrecinctResults_def fillOf_def fills_hex)
  next
    case w: (Some w)
    with Some assms(2) have "w \<notin> set objectPrototypeKeys" by simp
    from baseColorOf_own [OF this] obtain c where c: "baseColorOf w = Str c" by blast
    from resultsFill_hex [OF baseColorOf_hex [OF c], of "winPercentage r w"]
    obtain c' where c': "resultsFill (Str c) (winPercentage r w) = Inr (Str c')" "isHexColor c'"
      by blast
    from Some w c c' assms(1) show ?thesis
      by (simp add: stylePrecinctByResults_def callGetPrecinctResults_def fillOf_def)
  qed
qed

lemma stylePrecinctByTurnout_hex:
  assumes "readElectDist f = Inr (Some d)"
  shows "\<exists>c. fillOf (stylePrecinctByTurnout precincts getVoterCounts f) = Inr (Str c) \<and>
    isHexColor c"
  using assms
  by (simp add: stylePrecinctByTurnout_def callGetPrecinctResults_def fillOf_def fills_hex
      split: option.split)

lemma stylePrecinctByVoters_hex:
  assumes "readElectDist f = Inr (Some d)"
  shows "\<exists>c. fillOf (stylePrecinctByVoters getVoterCounts f) = Inr (Str c) \<and> isHexColor c"
  using assms
  by (simp add: stylePrecinctByVoters_def fillOf_def fills_hex split: option.split)

lemma stylePrecinctByZohranSupport_hex:
  assumes "readElectDist f = Inr (Some d)"
  shows "\<exists>c. fillOf (stylePrecinctByZohranSupport precincts getVoterCounts f) = Inr (Str c) \<and>
    isHexColor c"
  using assms
  by (simp add: stylePrecinctByZohranSupport_def callGetPrecinctResults_def fillOf_def fills_hex
      split: option.split)

lemma styleCensusTract_hex:
  "\<exists>c. fillColor (styleCensusTract t isPrimaryView) = Str c \<and> isHexColor c"
  by (simp add: styleCensusTract_def censusNoData_def fills_hex split: option.split)

text \<open>
  Claim C3, as amended. For every view mode and every feature that carries a precinct
  number, the dispatcher returns one style and does not throw, and its fill colour is a
  well-formed hexadecimal colour; in the results view this is stated for a winner whose
  key is not a name inherited from \<open>Object.prototype\<close>. Whenever a record that the
  active view needs is absent (the election record in the results view, either record
  in the turnout and targeted-support views, the registration record otherwise), the
  fill colour is the no-data colour \<open>#cccccc\<close>. The census-tract styling always yields a
  well-formed colour, and the no-data colour when the population is absent.
\<close>

theorem styling_total:
  assumes "readElectDist f = Inr (Some d)"
    and "viewMode = ElectionResults \<longrightarrow>
           (\<forall>w. getWinningCandidate (getPrecinctResults precincts d) = Some w \<longrightarrow>
              w \<notin> set objectPrototypeKeys)"
  shows "(\<exists>c. fillOf (styleFunction precincts getVoterCounts viewMode f) = Inr (Str c) \<and>
            isHexColor c) \<and>
   (viewMode = ElectionResults \<and> getPrecinctResults precincts d = None \<longrightarrow>
      fillOf (styleFunction precincts getVoterCounts viewMode f) = Inr (Str ''#cccccc'')) \<and>
   ((viewMode = Turnout \<or> viewMode = ZohranSupport) \<and>
    (getPrecinctResults precincts d = None \<or> getVoterCounts (Some d) = None) \<longrightarrow>
      fillOf (styleFunction precincts getVoterCounts viewMode f) = Inr (Str ''#cccccc'')) \<and>
   ((viewMode = VoterRegistration \<or> viewMode = AgeDemographics) \<and>
    getVoterCounts (Some d) = None \<longrightarrow>
      fillOf (styleFunction precincts getVoterCounts viewMode f) = Inr (Str ''#cccccc'')) \<and>
   (\<exists>c. fillColor (styleCensusTract t isPrimaryView) = Str c \<and> isHexColor c) \<and>
   (totalPopulation t = None \<longrightarrow>
      fillColor (styleCensusTract t isPrimaryView) = Str ''#cccccc'')"
proof -
  have hex: "\<exists>c. fillOf (styleFunction precincts getVoterCounts viewMode f) = Inr (Str c) \<and>
      isHexColor c"
  proof (cases "viewMode = ElectionResults")
    case True
    with assms(2) stylePrecinctByResults_hex [OF assms(1), of precincts] show ?thesis
      by (simp add: styleFunction_def)
  next
    case False
    with stylePrecinctByTurnout_hex [OF assms(1), of precincts getVoterCounts]
      stylePrecinctByZohranSupport_hex [OF assms(1), of precincts getVoterCounts]
      stylePrecinctByVoters_hex [OF assms(1), of getVoterCounts]
    show ?thesis by (simp add: styleFunction_def)
  qed
  have res: "getPrecinctResults precincts d = None \<Longrightarrow>
      fillOf (stylePrecinctByResults precincts f) = Inr (Str ''#cccccc'')"
    using assms(1)
    by (simp add: stylePrecinctByResults_def callGetPrecinctResults_def fillOf_def
        getWinningCandidate_def)
  have both: "getPrecinctResults precincts d = None \<or> getVoterCounts (Some d) = None \<Longrightarrow>
      fillOf (stylePrecinctByTurnout precincts getVoterCounts f) = Inr (Str ''#cccccc'') \<and>
      fillOf (stylePrecinctByZohranSupport precincts getVoterCounts f) = Inr (Str ''#cccccc'')"
    using assms(1)
    by (auto simp: stylePrecinctByTurnout_def stylePrecinctByZohranSupport_def
        callGetPrecinctResults_def fillOf_def split: option.split)
  have reg: "getVoterCounts (Some d) = None \<Longrightarrow>
      fillOf (stylePrecinctByVoters getVoterCounts f) = Inr (Str ''#cccccc'')"
    using assms(1) by (simp add: stylePrecinctByVoters_def fillOf_def)
  have census: "totalPopulation t = None \<Longrightarrow>
      fillColor (styleCensusTract t isPrimaryView) = Str ''#cccccc''"
    by (simp add: styleCensusTract_def censusNoData_def)
  from hex res both reg census styleCensusTract_hex [of t isPrimaryView] show ?thesis
    by (auto simp: styleFunction_def)
qed

theorem styling_total_witness:
  "readElectDist (precinctFeature 3) = Inr (Some 3) \<and>
   getPrecinctResults examplePrecincts 3 = None \<and>
   exampleVoterCounts (Some 3) = None \<and>
   fillOf (styleFunction examplePrecincts exampleVoterCounts ElectionResults (precinctFeature 3))
     = Inr (Str ''#cccccc'') \<and>
   fillOf (styleFunction examplePrecincts exampleVoterCounts Turnout (precinctFeature 3))
     = Inr (Str ''#cccccc'') \<and>
   fillOf (styleFunction examplePrecincts exampleVoterCounts ZohranSupport (precinctFeature 3))
     = Inr (Str ''#cccccc'') \<and>
   fillOf (styleFunction examplePrecincts exampleVoterCounts VoterRegistration (precinctFeature 3))
     = Inr (Str ''#cccccc'') \<and>
   fillColor (styleCensusTract \<lparr>totalPopulation = None, ageGroups = None\<rparr> True)
     = Str ''#cccccc'' \<and>
   (\<exists>c. fillOf (styleFunction examplePrecincts exampleVoterCounts ElectionResults
            (precinctFeature 7)) = Inr (Str c) \<and> isHexColor c)"
proof -
  have e: "getPrecinctResults examplePrecincts 3 = None"
    by (simp add: example_join)
  have v: "exampleVoterCounts (Some 3) = None"
    by (simp add: exampleVoterCounts_def)
  have t: "totalPopulation \<lparr>totalPopulation = None, ageGroups = None\<rparr> = None"
    by simp
  have w3: "\<forall>w. getWinningCandidate (getPrecinctResults examplePrecincts 3) = Some w \<longrightarrow>
      w \<notin> set objectPrototypeKeys"
    by (simp add: e getWinningCandidate_def)
  have w7: "\<forall>w. getWinningCandidate (getPrecinctResults examplePrecincts 7) = Some w \<longrightarrow>
      w \<notin> set objectPrototypeKeys"
    by (simp add: example_join getWinningCandidate_def candidates_def objectPrototypeKeys_def)
  note rd = readElectDist_precinctFeature
  note a = styling_total [OF rd [of 3], where precincts = examplePrecincts
      and getVoterCounts = exampleVoterCounts
      and t = "\<lparr>totalPopulation = None, ageGroups = None\<rparr>" and isPrimaryView = True]
  note b = styling_total [OF rd [of 7], where precincts = examplePrecincts
      and getVoterCounts = exampleVoterCounts and viewMode = ElectionResults
      and t = "\<lparr>totalPopulation = None, ageGroups = None\<rparr>" and isPrimaryView = True]
  from a [where viewMode = ElectionResults] a [where viewMode = Turnout]
    a [where viewMode = ZohranSupport] a [where viewMode = VoterRegistration] b w3 w7 e v t
    rd [of 3]
  show ?thesis by simp
qed

text \<open>
  Claim C3 as stated fails for a feature that carries no precinct number: over a loaded
  precinct array the results view throws instead of returning a style.
\<close>

theorem missing_identifier_counterexample:
  "styleFunction examplePrecincts exampleVoterCounts ElectionResults
     \<lparr>properties = Some \<lparr>ElectDist = None\<rparr>\<rparr> = Inl TypeError"
  by (simp add: styleFunction_def stylePrecinctByResults_def readElectDist_def
      callGetPrecinctResults_def examplePrecincts_def)

text \<open>
  The results view also throws when the winning key is a name inherited from
  \<open>Object.prototype\<close> and the tier calls for shading; in the tier of the base colour it
  returns the inherited member as the fill.
\<close>

theorem inherited_key_throws:
  "stylePrecinctByResults examplePrecincts (precinctFeature 13) = Inl TypeError \<and>
   fillOf (stylePrecinctByResults
     [\<lparr>item_id = ''13'', votes = 4, results = [(''constructor'', 2), (''cuomo-a'', 2)]\<rparr>]
     (precinctFeature 13)) = Inr (Inherited ''constructor'')"
proof -
  have p: "percentOf 2 2 = 100" "percentOf 2 4 = 50"
    by (simp_all add: fl_eval)
  have a: "stylePrecinctByResults examplePrecincts (precinctFeature 13) = Inl TypeError"
    by (simp add: stylePrecinctByResults_def readElectDist_precinctFeature
        callGetPrecinctResults_def example_join
        getWinningCandidate_def candidates_def winPercentage_def p baseColorOf_def
        candidateBaseColors_def objectPrototypeKeys_def resultsFill_def atLeast_num_def
        darken_def)
  have b: "fillOf (stylePrecinctByResults
     [\<lparr>item_id = ''13'', votes = 4, results = [(''constructor'', 2), (''cuomo-a'', 2)]\<rparr>]
     (precinctFeature 13)) = Inr (Inherited ''constructor'')"
    by (simp add: stylePrecinctByResults_def readElectDist_precinctFeature
        callGetPrecinctResults_def getPrecinctResults_def numberToString_digit
        getWinningCandidate_def candidates_def winPercentage_def p baseColorOf_def
        candidateBaseColors_def objectPrototypeKeys_def resultsFill_def atLeast_num_def
        fillOf_def)
  from a b show ?thesis by simp
qed

end
